theory Spec2Isabelle
  imports Complex_Main "HOL-Library.Char_ord" "HOL-Library.List_Lexorder"
    "HOL-Library.Product_Lexorder"
begin

section \<open>Python and pandas primitives used by the dashboard pages\<close>

text \<open>
  The three page modules (\<^verbatim>\<open>pages/overview.py\<close>, \<^verbatim>\<open>pages/delay_analysis.py\<close>,
  \<^verbatim>\<open>pages/cancelled_flights.py\<close>) load the flight table, add derived columns and compute
  one table per chart. A missing value (pandas' NaN) is \<open>None\<close>; an exception is the
  left injection of a sum. Floating-point results (means, rates) are modelled as exact
  rationals.
\<close>

datatype error = ValueError

subsection \<open>\<^verbatim>\<open>str(int)\<close>, \<^verbatim>\<open>str.zfill\<close>, \<^verbatim>\<open>int(str)\<close>\<close>

definition digit_char :: "nat \<Rightarrow> char" where
  "digit_char d = char_of (48 + d)"

definition is_digit :: "char \<Rightarrow> bool" where
  "is_digit c = (48 \<le> (of_char c :: nat) \<and> (of_char c :: nat) \<le> 57)"

definition digit_val :: "char \<Rightarrow> nat" where
  "digit_val c = of_char c - 48"

text \<open>Decimal digits of a natural number, most significant first (no leading zero).\<close>

function str_nat :: "nat \<Rightarrow> string" where
  "str_nat n = (if n < 10 then [digit_char n] else str_nat (n div 10) @ [digit_char (n mod 10)])"
  by pat_completeness auto
termination
  by (relation "measure (\<lambda>n. n)") auto

declare str_nat.simps [simp del]

text \<open>\<^verbatim>\<open>str(i)\<close> for a Python integer.\<close>

definition str_int :: "int \<Rightarrow> string" where
  "str_int i = (if i < 0 then CHR ''-'' # str_nat (nat (- i)) else str_nat (nat i))"

text \<open>
  \<^verbatim>\<open>s.zfill(width)\<close>: a string already \<open>width\<close> long is returned as it is; otherwise
  zeros are inserted on the left, after a leading sign if there is one.
\<close>

definition zfill :: "nat \<Rightarrow> string \<Rightarrow> string" where
  "zfill width s =
     (if width \<le> length s then s
      else (case s of
              c # rest \<Rightarrow>
                (if c = CHR ''+'' \<or> c = CHR ''-''
                 then c # replicate (width - length s) CHR ''0'' @ rest
                 else replicate (width - length s) CHR ''0'' @ s)
            | [] \<Rightarrow> replicate width CHR ''0''))"

text \<open>The value of a digit string, read left to right.\<close>

fun digits_val :: "nat \<Rightarrow> string \<Rightarrow> nat" where
  "digits_val acc [] = acc"
| "digits_val acc (c # cs) = digits_val (10 * acc + digit_val c) cs"

text \<open>
  \<^verbatim>\<open>int(s)\<close> on a string: an optional sign followed by at least one decimal digit;
  anything else raises \<^verbatim>\<open>ValueError\<close>. (Python also accepts surrounding blanks and
  underscores between digits; the strings parsed here are prefixes of \<^verbatim>\<open>str(int)\<close>
  output padded with zeros and contain neither.)
\<close>

definition int_of_str :: "string \<Rightarrow> error + int" where
  "int_of_str s =
     (case s of
        [] \<Rightarrow> Inl ValueError
      | c # rest \<Rightarrow>
          (if c = CHR ''-'' \<or> c = CHR ''+''
           then (if rest \<noteq> [] \<and> list_all is_digit rest
                 then Inr ((if c = CHR ''-'' then - 1 else 1) * int (digits_val 0 rest))
                 else Inl ValueError)
           else (if list_all is_digit s then Inr (int (digits_val 0 s)) else Inl ValueError)))"

subsection \<open>Scheduled hour\<close>

text \<open>
  \<^verbatim>\<open>lambda x: int(str(int(x)).zfill(4)[:2])\<close>, applied to the
  \<^verbatim>\<open>SCHEDULED_DEPARTURE\<close> column (\<^verbatim>\<open>delay_analysis.py\<close> line 17,
  \<^verbatim>\<open>cancelled_flights.py\<close> line 23). \<^verbatim>\<open>int(x)\<close> raises \<^verbatim>\<open>ValueError\<close>
  on a missing value.
\<close>

definition sched_hour :: "int option \<Rightarrow> error + int" where
  "sched_hour x =
     (case x of
        None \<Rightarrow> Inl ValueError
      | Some i \<Rightarrow> int_of_str (take 2 (zfill 4 (str_int i))))"

section \<open>The tables\<close>

text \<open>
  One row of \<^verbatim>\<open>flights.csv\<close> with the columns the modelled charts read, followed
  by the derived columns the pages add. \<open>None\<close> in a source column is a missing value;
  in a derived column it is a missing value or a column that no page has assigned yet.
\<close>

record flight =
  AIRLINE :: string
  ORIGIN_AIRPORT :: "string option"
  DESTINATION_AIRPORT :: "string option"
  SCHEDULED_DEPARTURE :: "int option"
  DEPARTURE_DELAY :: "int option"
  DISTANCE :: "int option"
  DAY_OF_WEEK :: int
  MONTH :: int
  CANCELLED :: int
  AIRLINE_NAME :: "string option"
  ORIGIN_CITY :: "string option"
  DEST_CITY :: "string option"
  ROUTE :: "string option"
  DAY_NAME :: "string option"
  MONTH_NAME :: "string option"
  SCHED_HOUR :: "int option"
  HOUR :: "int option"
  ON_TIME :: "string option"

text \<open>A row of \<^verbatim>\<open>airports.csv\<close>.\<close>

record airport =
  IATA_CODE :: string
  CITY :: string
  LATITUDE :: "rat option"
  LONGITUDE :: "rat option"

text \<open>A row of \<^verbatim>\<open>airlines.csv\<close>: \<^verbatim>\<open>(IATA_CODE, AIRLINE)\<close>.\<close>

type_synonym airline_row = "string \<times> string"

subsection \<open>Reference mappings\<close>

text \<open>\<^verbatim>\<open>dict(zip(ks, vs))\<close>: a later pair overrides an earlier one with the same key.\<close>

definition dict_zip :: "'k list \<Rightarrow> 'v list \<Rightarrow> ('k \<rightharpoonup> 'v)" where
  "dict_zip ks vs = map_of (rev (zip ks vs))"

definition airline_map :: "airline_row list \<Rightarrow> (string \<rightharpoonup> string)" where
  "airline_map airlines = dict_zip (map fst airlines) (map snd airlines)"

definition city_map :: "airport list \<Rightarrow> (string \<rightharpoonup> string)" where
  "city_map airports = dict_zip (map IATA_CODE airports) (map CITY airports)"

text \<open>
  \<^verbatim>\<open>airports.set_index('IATA_CODE')[['LATITUDE', 'LONGITUDE']].dropna()\<close>: the rows
  with both coordinates, and its index.
\<close>

definition airport_coords :: "airport list \<Rightarrow> airport list" where
  "airport_coords airports =
     filter (\<lambda>a. LATITUDE a \<noteq> None \<and> LONGITUDE a \<noteq> None) airports"

definition airport_coords_index :: "airport list \<Rightarrow> string list" where
  "airport_coords_index airports = map IATA_CODE (airport_coords airports)"

subsection \<open>Column operations\<close>

text \<open>\<^verbatim>\<open>Series.map(dict)\<close> on one value: a missing value or a missing key gives NaN.\<close>

definition series_map :: "('k \<rightharpoonup> 'v) \<Rightarrow> 'k option \<Rightarrow> 'v option" where
  "series_map m v = (case v of None \<Rightarrow> None | Some k \<Rightarrow> m k)"

text \<open>\<^verbatim>\<open>+\<close> on two string columns, one value: NaN if either side is NaN.\<close>

definition str_add :: "string option \<Rightarrow> string option \<Rightarrow> string option" where
  "str_add a b = (case a of None \<Rightarrow> None | Some x \<Rightarrow> (case b of None \<Rightarrow> None | Some y \<Rightarrow> Some (x @ y)))"

text \<open>The separator \<^verbatim>\<open>" -> "\<close> of a route label, with the arrow U+2192 in UTF-8.\<close>

definition arrow :: string where
  "arrow = [CHR '' '', CHR 0xE2, CHR 0x86, CHR 0x92, CHR '' '']"

definition day_names :: "int \<rightharpoonup> string" where
  "day_names = map_of [(1, ''Mon''), (2, ''Tue''), (3, ''Wed''), (4, ''Thu''), (5, ''Fri''),
                       (6, ''Sat''), (7, ''Sun'')]"

definition month_names :: "int \<rightharpoonup> string" where
  "month_names = map_of [(1, ''Jan''), (2, ''Feb''), (3, ''Mar''), (4, ''Apr''), (5, ''May''),
                         (6, ''Jun''), (7, ''Jul''), (8, ''Aug''), (9, ''Sep''), (10, ''Oct''),
                         (11, ''Nov''), (12, ''Dec'')]"

text \<open>Comparisons of a value that may be NaN with a constant: NaN compares false.\<close>

definition le_nan :: "int option \<Rightarrow> int \<Rightarrow> bool" where
  "le_nan x c = (case x of None \<Rightarrow> False | Some d \<Rightarrow> d \<le> c)"

definition lt_nan :: "int option \<Rightarrow> int \<Rightarrow> bool" where
  "lt_nan x c = (case x of None \<Rightarrow> False | Some d \<Rightarrow> d < c)"

text \<open>\<^verbatim>\<open>Series.between(lo, hi)\<close>, both ends included.\<close>

definition between :: "int option \<Rightarrow> int \<Rightarrow> int \<Rightarrow> bool" where
  "between x lo hi = (case x of None \<Rightarrow> False | Some d \<Rightarrow> lo \<le> d \<and> d \<le> hi)"

text \<open>\<^verbatim>\<open>Series.isin(index)\<close> on one value.\<close>

definition isin :: "string option \<Rightarrow> string list \<Rightarrow> bool" where
  "isin v idx = (case v of None \<Rightarrow> False | Some c \<Rightarrow> c \<in> set idx)"

text \<open>\<^verbatim>\<open>Series.dropna()\<close>.\<close>

fun dropna :: "'a option list \<Rightarrow> 'a list" where
  "dropna [] = []"
| "dropna (None # xs) = dropna xs"
| "dropna (Some x # xs) = x # dropna xs"

text \<open>\<^verbatim>\<open>Series.unique()\<close>: the distinct values in order of first appearance.\<close>

definition unique :: "'a list \<Rightarrow> 'a list" where
  "unique xs = rev (remdups (rev xs))"

text \<open>
  \<^verbatim>\<open>Series.apply(f)\<close> with a function that may raise: the first exception ends the
  whole assignment.
\<close>

fun apply_rows :: "('a \<Rightarrow> error + 'b) \<Rightarrow> 'a list \<Rightarrow> error + 'b list" where
  "apply_rows f [] = Inr []"
| "apply_rows f (x # xs) =
     (case f x of
        Inl e \<Rightarrow> Inl e
      | Inr y \<Rightarrow> (case apply_rows f xs of Inl e \<Rightarrow> Inl e | Inr ys \<Rightarrow> Inr (y # ys)))"

section \<open>Enrichment\<close>

text \<open>\<^verbatim>\<open>lambda x: 'On Time' if x <= 0 else 'Delayed'\<close> (\<^verbatim>\<open>delay_analysis.py\<close> line 20).\<close>

definition on_time :: "int option \<Rightarrow> string" where
  "on_time x = (if le_nan x 0 then ''On Time'' else ''Delayed'')"

text \<open>
  \<^verbatim>\<open>overview.py\<close> lines 21 to 29, on one row. The assignments are kept in the
  order of the source: \<^verbatim>\<open>ROUTE\<close> reads the two city columns just assigned.
\<close>

definition overview_enrich_row :: "(string \<rightharpoonup> string) \<Rightarrow> (string \<rightharpoonup> string) \<Rightarrow> flight \<Rightarrow> flight" where
  "overview_enrich_row am cm f =
     (let f1 = f\<lparr>AIRLINE_NAME := am (AIRLINE f)\<rparr>;
          f2 = f1\<lparr>ORIGIN_CITY := series_map cm (ORIGIN_AIRPORT f1)\<rparr>;
          f3 = f2\<lparr>DEST_CITY := series_map cm (DESTINATION_AIRPORT f2)\<rparr>;
          f4 = f3\<lparr>ROUTE := str_add (str_add (ORIGIN_CITY f3) (Some arrow)) (DEST_CITY f3)\<rparr>;
          f5 = f4\<lparr>DAY_NAME := day_names (DAY_OF_WEEK f4)\<rparr>
      in f5\<lparr>MONTH_NAME := month_names (MONTH f5)\<rparr>)"

definition overview_enrichment :: "airline_row list \<Rightarrow> airport list \<Rightarrow> flight list \<Rightarrow> flight list" where
  "overview_enrichment airlines airports flights =
     map (overview_enrich_row (airline_map airlines) (city_map airports)) flights"

text \<open>\<^verbatim>\<open>delay_analysis.py\<close> lines 14 to 20, on one row.\<close>

definition delay_enrich_row :: "(string \<rightharpoonup> string) \<Rightarrow> flight \<Rightarrow> error + flight" where
  "delay_enrich_row am f =
     (let f1 = f\<lparr>AIRLINE_NAME := am (AIRLINE f)\<rparr>
      in case sched_hour (SCHEDULED_DEPARTURE f1) of
           Inl e \<Rightarrow> Inl e
         | Inr h \<Rightarrow>
             (let f2 = f1\<lparr>SCHED_HOUR := Some h\<rparr>
              in Inr (f2\<lparr>ON_TIME := Some (on_time (DEPARTURE_DELAY f2))\<rparr>)))"

definition delay_enrichment :: "airline_row list \<Rightarrow> flight list \<Rightarrow> error + flight list" where
  "delay_enrichment airlines flights = apply_rows (delay_enrich_row (airline_map airlines)) flights"

text \<open>\<^verbatim>\<open>cancelled_flights.py\<close> lines 18 to 23, on one row.\<close>

definition cancelled_enrich_row :: "(string \<rightharpoonup> string) \<Rightarrow> (string \<rightharpoonup> string) \<Rightarrow> flight \<Rightarrow> error + flight" where
  "cancelled_enrich_row am cm f =
     (let f1 = f\<lparr>AIRLINE_NAME := am (AIRLINE f)\<rparr>;
          f2 = f1\<lparr>ORIGIN_CITY := series_map cm (ORIGIN_AIRPORT f1)\<rparr>;
          f3 = f2\<lparr>DEST_CITY := series_map cm (DESTINATION_AIRPORT f2)\<rparr>;
          f4 = f3\<lparr>ROUTE := str_add (str_add (ORIGIN_CITY f3) (Some arrow)) (DEST_CITY f3)\<rparr>;
          f5 = f4\<lparr>DAY_NAME := day_names (DAY_OF_WEEK f4)\<rparr>
      in case sched_hour (SCHEDULED_DEPARTURE f5) of
           Inl e \<Rightarrow> Inl e
         | Inr h \<Rightarrow> Inr (f5\<lparr>HOUR := Some h\<rparr>))"

definition cancelled_enrichment :: "airline_row list \<Rightarrow> airport list \<Rightarrow> flight list \<Rightarrow> error + flight list" where
  "cancelled_enrichment airlines airports flights =
     apply_rows (cancelled_enrich_row (airline_map airlines) (city_map airports)) flights"

section \<open>Aggregation primitives\<close>

text \<open>
  A floating-point result: a finite value (kept exact), an infinity or NaN. Division of
  two columns never raises in pandas; a zero divisor gives an infinity or NaN.
\<close>

datatype pyfloat = Finite rat | PosInf | NegInf | NaN

definition true_div :: "int \<Rightarrow> int \<Rightarrow> pyfloat" where
  "true_div a b =
     (if b = 0 then (if a = 0 then NaN else if 0 < a then PosInf else NegInf)
      else Finite (of_int a / of_int b))"

text \<open>\<^verbatim>\<open>mean()\<close> of a column, missing values skipped; NaN when nothing is left.\<close>

definition mean :: "int option list \<Rightarrow> pyfloat" where
  "mean xs =
     (let vals = dropna xs
      in if vals = [] then NaN else Finite (of_int (sum_list vals) / of_nat (length vals)))"

text \<open>
  \<^verbatim>\<open>Series.value_counts()\<close>: missing values dropped, one row per distinct value with
  its number of occurrences, largest count first. Rows with equal counts are kept in
  order of first appearance.
\<close>

definition value_counts :: "'a option list \<Rightarrow> ('a \<times> nat) list" where
  "value_counts xs =
     (let vals = dropna xs
      in sort_key (\<lambda>(k, n). - int n) (map (\<lambda>k. (k, count_list vals k)) (unique vals)))"

text \<open>
  \<^verbatim>\<open>DataFrame.groupby(key)\<close>: one group per key value that occurs, keys in ascending
  order; rows whose key is missing belong to no group.
\<close>

definition groupby :: "('r \<Rightarrow> 'k option) \<Rightarrow> 'r list \<Rightarrow> ('k::linorder \<times> 'r list) list" where
  "groupby key df =
     map (\<lambda>k. (k, filter (\<lambda>r. key r = Some k) df)) (sort (unique (dropna (map key df))))"

text \<open>
  \<^verbatim>\<open>pd.cut(x, bins, labels)\<close> with the default \<^verbatim>\<open>right=True\<close>: bin \<open>i\<close> is the
  interval \<open>(bins[i], bins[i+1]]\<close>, open on the left and closed on the right; a value in
  no bin is NaN.
\<close>

fun cut :: "int list \<Rightarrow> string list \<Rightarrow> int \<Rightarrow> string option" where
  "cut (lo # hi # bs) (l # ls) x = (if lo < x \<and> x \<le> hi then Some l else cut (hi # bs) ls x)"
| "cut _ _ _ = None"

subsection \<open>Random sampling\<close>

text \<open>
  NumPy's generator is outside the repository. It is a parameter: \<open>RandomState seed\<close>
  is the state of a fresh generator, \<open>permutation g n\<close> the permutation of \<open>0..<n\<close> drawn
  from state \<open>g\<close>, with the state that follows.
\<close>

record 'g numpy_random =
  RandomState :: "int \<Rightarrow> 'g"
  permutation :: "'g \<Rightarrow> nat \<Rightarrow> nat list \<times> 'g"

text \<open>
  \<^verbatim>\<open>DataFrame.sample(n, random_state)\<close> without replacement, run with the process-wide
  generator in state \<open>g\<close>. Asking for more rows than there are raises \<^verbatim>\<open>ValueError\<close>.
  With \<^verbatim>\<open>random_state=seed\<close> a fresh generator is seeded and the process-wide one is
  left alone; without it the process-wide generator is used and advanced. The sample is
  the rows at the first \<open>n\<close> positions of the permutation.
\<close>

definition sample :: "'g numpy_random \<Rightarrow> 'a list \<Rightarrow> nat \<Rightarrow> int option \<Rightarrow> 'g \<Rightarrow> (error + 'a list) \<times> 'g" where
  "sample np df n random_state g =
     (if length df < n then (Inl ValueError, g)
      else (case random_state of
              Some seed \<Rightarrow>
                (Inr (map (\<lambda>i. df ! i) (take n (fst (permutation np (RandomState np seed) (length df))))), g)
            | None \<Rightarrow>
                (case permutation np g (length df) of
                   (p, g') \<Rightarrow> (Inr (map (\<lambda>i. df ! i) (take n p)), g'))))"

text \<open>What the generator guarantees: a permutation of the positions.\<close>

definition permutes_positions :: "'g numpy_random \<Rightarrow> bool" where
  "permutes_positions np =
     (\<forall>g n. distinct (fst (permutation np g n)) \<and> set (fst (permutation np g n)) = {..<n})"

section \<open>Charts of the overview page\<close>

text \<open>
  Each chart function is modelled up to the table it hands to the charting library.
  \<^verbatim>\<open>flights if airline is None else flights[flights['AIRLINE'] == airline]\<close>:
\<close>

definition select_airline :: "string option \<Rightarrow> flight list \<Rightarrow> flight list" where
  "select_airline airline flights =
     (case airline of None \<Rightarrow> flights | Some a \<Rightarrow> filter (\<lambda>f. AIRLINE f = a) flights)"

definition route_bar :: "string option \<Rightarrow> flight list \<Rightarrow> (string \<times> nat) list" where
  "route_bar airline flights =
     (let df = select_airline airline flights
      in take 20 (value_counts (map ROUTE df)))"

definition origin_treemap :: "string option \<Rightarrow> flight list \<Rightarrow> (string \<times> nat) list" where
  "origin_treemap airline flights =
     (let df = select_airline airline flights
      in take 20 (value_counts (map ORIGIN_CITY df)))"

definition dest_treemap :: "string option \<Rightarrow> flight list \<Rightarrow> (string \<times> nat) list" where
  "dest_treemap airline flights =
     (let df = select_airline airline flights
      in take 20 (value_counts (map DEST_CITY df)))"

text \<open>\<^verbatim>\<open>df[['ORIGIN_AIRPORT', 'DESTINATION_AIRPORT']].dropna()\<close>.\<close>

fun endpoints :: "flight list \<Rightarrow> (string \<times> string) list" where
  "endpoints [] = []"
| "endpoints (f # fs) =
     (case ORIGIN_AIRPORT f of
        None \<Rightarrow> endpoints fs
      | Some a \<Rightarrow> (case DESTINATION_AIRPORT f of None \<Rightarrow> endpoints fs | Some b \<Rightarrow> (a, b) # endpoints fs))"

text \<open>\<^verbatim>\<open>pd.unique(sample[['ORIGIN_AIRPORT', 'DESTINATION_AIRPORT']].values.ravel())\<close>.\<close>

definition airports_used :: "(string \<times> string) list \<Rightarrow> string list" where
  "airports_used rows = unique (concat (map (\<lambda>(a, b). [a, b]) rows))"

text \<open>
  \<^verbatim>\<open>show_map\<close> (\<^verbatim>\<open>overview.py\<close> lines 109 to 163): the sampled rows, one arc each,
  and the airports marked. The sample size is computed from \<^verbatim>\<open>len(df)\<close>, the frame
  before the rows without coordinates are removed.
\<close>

definition show_map ::
  "'g numpy_random \<Rightarrow> airport list \<Rightarrow> string option \<Rightarrow> flight list \<Rightarrow> 'g
     \<Rightarrow> (error + (string \<times> string) list \<times> string list) \<times> 'g" where
  "show_map np airports selected_airline flights g =
     (let df = select_airline selected_airline flights;
          idx = airport_coords_index airports;
          sample0 = endpoints df;
          sample1 = filter (\<lambda>(a, b). a \<in> set idx \<and> b \<in> set idx) sample0
      in case sample np sample1 (min 300 (length df)) (Some 42) g of
           (Inl e, g') \<Rightarrow> (Inl e, g')
         | (Inr s, g') \<Rightarrow> (Inr (s, airports_used s), g'))"

section \<open>Charts of the cancelled-flights page\<close>

text \<open>
  \<^verbatim>\<open>groupby(key).agg(cancelled=('CANCELLED', 'sum'), total=('CANCELLED', 'count'))\<close>
  followed by \<^verbatim>\<open>rate = 100 * cancelled / total\<close>: key, cancelled, total, rate.
\<close>

definition cancel_rates :: "(flight \<Rightarrow> 'k option) \<Rightarrow> flight list \<Rightarrow> ('k::linorder \<times> int \<times> int \<times> pyfloat) list" where
  "cancel_rates key flights =
     map (\<lambda>(k, rows).
            (let cancelled = sum_list (map CANCELLED rows);
                 total = int (length rows)
             in (k, cancelled, total, true_div (100 * cancelled) total)))
         (groupby key flights)"

definition cancel_day_bar :: "flight list \<Rightarrow> (string \<times> int \<times> int \<times> pyfloat) list" where
  "cancel_day_bar flights = cancel_rates DAY_NAME flights"

text \<open>A row belongs to a group of a two-column \<^verbatim>\<open>groupby\<close> when both keys are present.\<close>

definition key2 :: "'a option \<Rightarrow> 'b option \<Rightarrow> ('a \<times> 'b) option" where
  "key2 a b = (case a of None \<Rightarrow> None | Some x \<Rightarrow> (case b of None \<Rightarrow> None | Some y \<Rightarrow> Some (x, y)))"

definition cancel_heat :: "flight list \<Rightarrow> ((string \<times> string) \<times> int \<times> int \<times> pyfloat) list" where
  "cancel_heat flights = cancel_rates (\<lambda>f. key2 (AIRLINE_NAME f) (DAY_NAME f)) flights"

text \<open>
  The position of a rate in \<^verbatim>\<open>sort_values('rate', ascending=False)\<close>: larger first,
  NaN last. Rows with equal rates are kept in the order of the groups.
\<close>

fun descending :: "pyfloat \<Rightarrow> nat \<times> rat" where
  "descending PosInf = (0, 0)"
| "descending (Finite q) = (1, - q)"
| "descending NegInf = (2, 0)"
| "descending NaN = (3, 0)"

definition cancel_rate_bar :: "flight list \<Rightarrow> (string \<times> int \<times> int \<times> pyfloat) list" where
  "cancel_rate_bar flights =
     (let df = cancel_rates ROUTE flights
      in take 15 (sort_key (\<lambda>(k, c, t, r). descending r) df))"

definition cancel_route_bar :: "flight list \<Rightarrow> (string \<times> nat) list" where
  "cancel_route_bar flights =
     (let df = filter (\<lambda>f. CANCELLED f = 1) flights
      in take 15 (value_counts (map ROUTE df)))"

text \<open>
  \<^verbatim>\<open>cancel_map\<close> (\<^verbatim>\<open>cancelled_flights.py\<close> lines 106 to 157). As in
  \<^verbatim>\<open>show_map\<close>, \<^verbatim>\<open>len(df)\<close> is evaluated on the frame before the coordinate filter.
\<close>

definition cancel_map ::
  "'g numpy_random \<Rightarrow> airport list \<Rightarrow> flight list \<Rightarrow> 'g
     \<Rightarrow> (error + flight list \<times> string list) \<times> 'g" where
  "cancel_map np airports flights g =
     (let df = filter (\<lambda>f. CANCELLED f = 1) flights;
          idx = airport_coords_index airports;
          df1 = filter (\<lambda>f. isin (ORIGIN_AIRPORT f) idx \<and> isin (DESTINATION_AIRPORT f) idx) df
      in case sample np df1 (min 300 (length df)) (Some 42) g of
           (Inl e, g') \<Rightarrow> (Inl e, g')
         | (Inr s, g') \<Rightarrow> (Inr (s, airports_used (endpoints s)), g'))"

text \<open>
  \<^verbatim>\<open>cancel_animated_bar\<close>: the group sizes and the upper end of the y range,
  \<^verbatim>\<open>grouped['count'].max() + 10\<close>, which is NaN for an empty table.
\<close>

definition cancel_animated_bar :: "flight list \<Rightarrow> ((int \<times> string) \<times> nat) list \<times> pyfloat" where
  "cancel_animated_bar flights =
     (let df = filter (\<lambda>f. CANCELLED f = 1) flights;
          grouped = map (\<lambda>(k, rows). (k, length rows))
                        (groupby (\<lambda>f. key2 (HOUR f) (AIRLINE_NAME f)) df)
      in (grouped,
          if grouped = [] then NaN else Finite (of_nat (Max (set (map snd grouped))) + 10)))"

section \<open>Charts of the delay page\<close>

definition update_boxplot :: "int \<Rightarrow> flight list \<Rightarrow> (string \<times> int option list) list" where
  "update_boxplot hour flights =
     (let df = filter (\<lambda>f. SCHED_HOUR f = Some hour \<and> CANCELLED f = 0) flights
      in map (\<lambda>airline. (airline, map DEPARTURE_DELAY (filter (\<lambda>f. AIRLINE_NAME f = Some airline) df)))
             (unique (dropna (map AIRLINE_NAME df))))"

text \<open>\<^verbatim>\<open>delay_violin\<close> samples with the process-wide generator.\<close>

definition delay_violin :: "'g numpy_random \<Rightarrow> int \<Rightarrow> flight list \<Rightarrow> 'g \<Rightarrow> (error + flight list) \<times> 'g" where
  "delay_violin np hour flights g =
     (let df = filter (\<lambda>f. SCHED_HOUR f = Some hour \<and> between (DEPARTURE_DELAY f) (- 10) 180) flights
      in sample np df (min 1000 (length df)) None g)"

definition bins :: "int list" where
  "bins = [0, 500, 1000, 1500, 2000, 2500, 3000]"

definition labels :: "string list" where
  "labels = [''<500'', ''500-999'', ''1000-1499'', ''1500-1999'', ''2000-2499'', ''2500+'']"

text \<open>
  \<^verbatim>\<open>delay_by_distance_range\<close>, up to line 96: the rows kept by the filter, each with
  its \<^verbatim>\<open>DISTANCE_BIN\<close>.
\<close>

definition distance_bin_df :: "int \<Rightarrow> flight list \<Rightarrow> (flight \<times> string option) list" where
  "distance_bin_df hour flights =
     (let df = filter (\<lambda>f. CANCELLED f = 0 \<and> SCHED_HOUR f = Some hour \<and> lt_nan (DISTANCE f) 3000) flights
      in map (\<lambda>f. (f, (case DISTANCE f of None \<Rightarrow> None | Some d \<Rightarrow> cut bins labels d))) df)"

text \<open>
  Line 97: the mean delay per observed bin, bins in the order of the labels; a row
  whose bin is NaN is in no group.
\<close>

definition delay_by_distance_range :: "int \<Rightarrow> flight list \<Rightarrow> (string \<times> pyfloat) list" where
  "delay_by_distance_range hour flights =
     (let df = distance_bin_df hour flights
      in concat (map (\<lambda>l. (let rows = filter (\<lambda>(f, b). b = Some l) df
                            in if rows = [] then [] else [(l, mean (map (\<lambda>(f, b). DEPARTURE_DELAY f) rows))]))
                     labels))"

definition on_time_vs_delayed :: "int \<Rightarrow> flight list \<Rightarrow> (string \<times> nat) list" where
  "on_time_vs_delayed hour flights =
     (let df = filter (\<lambda>f. CANCELLED f = 0 \<and> SCHED_HOUR f = Some hour) flights
      in value_counts (map ON_TIME df))"

text \<open>A rate that is a number between 0 and 100.\<close>

definition in_percent_range :: "pyfloat \<Rightarrow> bool" where
  "in_percent_range r = (case r of Finite q \<Rightarrow> 0 \<le> q \<and> q \<le> 100 | _ \<Rightarrow> False)"

text \<open>An airport code that has a row in the airport table.\<close>

definition in_airport_ref :: "airport list \<Rightarrow> string option \<Rightarrow> bool" where
  "in_airport_ref airports code =
     (case code of None \<Rightarrow> False | Some c \<Rightarrow> c \<in> set (map IATA_CODE airports))"

section \<open>Example tables\<close>

definition flight0 :: flight where
  "flight0 =
     \<lparr>AIRLINE = ''AA'', ORIGIN_AIRPORT = Some ''JFK'', DESTINATION_AIRPORT = Some ''LAX'',
      SCHEDULED_DEPARTURE = Some 555, DEPARTURE_DELAY = Some 0, DISTANCE = Some 499,
      DAY_OF_WEEK = 1, MONTH = 1, CANCELLED = 0,
      AIRLINE_NAME = None, ORIGIN_CITY = None, DEST_CITY = None, ROUTE = None,
      DAY_NAME = None, MONTH_NAME = None, SCHED_HOUR = None, HOUR = None, ON_TIME = None\<rparr>"

definition airports0 :: "airport list" where
  "airports0 =
     [\<lparr>IATA_CODE = ''JFK'', CITY = ''New York'', LATITUDE = Some 40, LONGITUDE = Some (- 73)\<rparr>,
      \<lparr>IATA_CODE = ''LAX'', CITY = ''Los Angeles'', LATITUDE = Some 33, LONGITUDE = Some (- 118)\<rparr>]"

definition airlines0 :: "airline_row list" where
  "airlines0 = [(''AA'', ''American'')]"

text \<open>A generator that always draws the reversed order, for running the samplers.\<close>

definition np_rev :: "unit numpy_random" where
  "np_rev = \<lparr>RandomState = (\<lambda>seed. ()), permutation = (\<lambda>g n. (rev [0..<n], g))\<rparr>"

text \<open>Five flights at hour 5 with the distances 499, 500, 2999, 3000 and -5.\<close>

definition distance_example :: "flight list" where
  "distance_example =
     map (\<lambda>(d, m). flight0\<lparr>DISTANCE := Some d, DEPARTURE_DELAY := Some m\<rparr>)
         [(499, 10), (500, 20), (2999, 30), (3000, 40), (- 5, 50)]"

text \<open>Two flights, the second one to an airport that the airport table does not have.\<close>

definition unknown_dest_example :: "flight list" where
  "unknown_dest_example = [flight0, flight0\<lparr>DESTINATION_AIRPORT := Some ''XXX''\<rparr>]"

text \<open>A single flight to an airport that the airport table does not have.\<close>

definition only_unknown_example :: "flight list" where
  "only_unknown_example = [flight0\<lparr>DESTINATION_AIRPORT := Some ''XXX''\<rparr>]"

text \<open>The same two flights, cancelled.\<close>

definition cancelled_unknown_dest_example :: "flight list" where
  "cancelled_unknown_dest_example = map (\<lambda>f. f\<lparr>CANCELLED := 1\<rparr>) unknown_dest_example"

text \<open>
  Four flights on two routes, two of them cancelled; the last one has a day of the week
  outside 1 to 7 and gets no day name.
\<close>

definition rates_example :: "flight list" where
  "rates_example =
     [flight0, flight0\<lparr>CANCELLED := 1\<rparr>,
      flight0\<lparr>DAY_OF_WEEK := 2, ORIGIN_AIRPORT := Some ''LAX'', DESTINATION_AIRPORT := Some ''JFK''\<rparr>,
      flight0\<lparr>DAY_OF_WEEK := 9, CANCELLED := 1\<rparr>]"

text \<open>Three flights at hour 5: one without a recorded delay, one late, one on time.\<close>

definition missing_delay_example :: "flight list" where
  "missing_delay_example =
     [flight0\<lparr>DEPARTURE_DELAY := None\<rparr>, flight0\<lparr>DEPARTURE_DELAY := Some 7\<rparr>, flight0]"

text \<open>Two flights, the first scheduled at 2400.\<close>

definition midnight_example :: "flight list" where
  "midnight_example = [flight0\<lparr>SCHEDULED_DEPARTURE := Some 2400\<rparr>, flight0]"

text \<open>
  Three hundred cancelled flights between known airports and one more to an airport
  that the airport table does not have.
\<close>

definition big_example :: "flight list" where
  "big_example =
     replicate 300 (flight0\<lparr>CANCELLED := 1\<rparr>) @
     [flight0\<lparr>CANCELLED := 1, DESTINATION_AIRPORT := Some ''XXX''\<rparr>]"

text \<open>
  A generator with two states that draws the positions in ascending order in one state
  and in descending order in the other.
\<close>

definition np_flip :: "bool numpy_random" where
  "np_flip = \<lparr>RandomState = (\<lambda>seed. False),
              permutation = (\<lambda>g n. (if g then rev [0..<n] else [0..<n], \<not> g))\<rparr>"

section \<open>Scheduled hour of an HHMM value\<close>

lemma of_char_digit_char: "d < 10 \<Longrightarrow> (of_char (digit_char d) :: nat) = 48 + d"
  by (simp add: digit_char_def)

lemma digit_char_0: "digit_char 0 = CHR ''0''"
  by code_simp

lemma is_digit_digit_char: "d < 10 \<Longrightarrow> is_digit (digit_char d)"
  by (simp add: is_digit_def of_char_digit_char)

lemma digit_val_digit_char: "d < 10 \<Longrightarrow> digit_val (digit_char d) = d"
  by (simp add: digit_val_def of_char_digit_char)

lemma digit_char_not_sign:
  assumes "d < 10"
  shows "digit_char d \<noteq> CHR ''-'' \<and> digit_char d \<noteq> CHR ''+''"
proof -
  have "(of_char (digit_char d) :: nat) \<noteq> of_char CHR ''-''"
    using assms by (simp add: of_char_digit_char)
  moreover have "(of_char (digit_char d) :: nat) \<noteq> of_char CHR ''+''"
    using assms by (simp add: of_char_digit_char)
  ultimately show ?thesis by auto
qed

lemma str_nat_1: "n < 10 \<Longrightarrow> str_nat n = [digit_char n]"
  by (simp add: str_nat.simps)

lemma str_nat_2:
  "10 \<le> n \<Longrightarrow> n < 100 \<Longrightarrow> str_nat n = [digit_char (n div 10), digit_char (n mod 10)]"
  by (subst str_nat.simps) (simp add: str_nat_1)

lemma str_nat_3:
  assumes "100 \<le> n" "n < 1000"
  shows "str_nat n = [digit_char (n div 100), digit_char (n div 10 mod 10), digit_char (n mod 10)]"
proof -
  have b: "10 \<le> n div 10" "n div 10 < 100" using assms by auto
  have c: "n div 10 div 10 = n div 100" by (simp add: div_mult2_eq [symmetric])
  show ?thesis
    using assms by (subst str_nat.simps) (simp add: str_nat_2 [OF b] c)
qed

lemma str_nat_4:
  assumes "1000 \<le> n" "n < 10000"
  shows "str_nat n = [digit_char (n div 1000), digit_char (n div 100 mod 10),
                      digit_char (n div 10 mod 10), digit_char (n mod 10)]"
proof -
  have b: "100 \<le> n div 10" "n div 10 < 1000" using assms by auto
  have c: "n div 10 div 100 = n div 1000" "n div 10 div 10 = n div 100"
    by (simp_all add: div_mult2_eq [symmetric])
  show ?thesis
    using assms by (subst str_nat.simps) (simp add: str_nat_3 [OF b] c)
qed

lemma replicate_small:
  "replicate (Suc 0) c = [c]" "replicate 2 c = [c, c]" "replicate 3 c = [c, c, c]"
  by (simp_all add: numeral_2_eq_2 numeral_3_eq_3)

lemma hhmm_prefix_1:
  assumes "n < 10"
  shows "take 2 (zfill 4 (str_nat n)) = [digit_char (n div 1000), digit_char (n div 100 mod 10)]"
  using assms digit_char_not_sign [of n]
  by (simp add: str_nat_1 zfill_def digit_char_0 replicate_small)

lemma hhmm_prefix_2:
  assumes "10 \<le> n" "n < 100"
  shows "take 2 (zfill 4 (str_nat n)) = [digit_char (n div 1000), digit_char (n div 100 mod 10)]"
proof -
  have "n div 10 < 10" using assms by simp
  then show ?thesis
    using assms digit_char_not_sign [of "n div 10"]
    by (simp add: str_nat_2 zfill_def digit_char_0 replicate_small)
qed

lemma hhmm_prefix_3:
  assumes "100 \<le> n" "n < 1000"
  shows "take 2 (zfill 4 (str_nat n)) = [digit_char (n div 1000), digit_char (n div 100 mod 10)]"
proof -
  have "n div 100 < 10" using assms by simp
  then show ?thesis
    using assms digit_char_not_sign [of "n div 100"]
    by (simp add: str_nat_3 zfill_def digit_char_0 replicate_small)
qed

lemma hhmm_prefix_4:
  assumes "1000 \<le> n" "n < 10000"
  shows "take 2 (zfill 4 (str_nat n)) = [digit_char (n div 1000), digit_char (n div 100 mod 10)]"
  using assms by (simp add: str_nat_4 zfill_def)

lemma hhmm_prefix:
  assumes "n < 10000"
  shows "take 2 (zfill 4 (str_nat n)) = [digit_char (n div 1000), digit_char (n div 100 mod 10)]"
proof -
  consider "n < 10" | "10 \<le> n" "n < 100" | "100 \<le> n" "n < 1000" | "1000 \<le> n"
    by linarith
  then show ?thesis
    using assms hhmm_prefix_1 hhmm_prefix_2 hhmm_prefix_3 hhmm_prefix_4 by cases blast+
qed

lemma int_of_str_two_digits:
  "a < 10 \<Longrightarrow> b < 10 \<Longrightarrow> int_of_str [digit_char a, digit_char b] = Inr (int (10 * a + b))"
  using digit_char_not_sign [of a]
  by (simp add: int_of_str_def is_digit_digit_char digit_val_digit_char)

lemma sched_hour_hhmm:
  assumes "0 \<le> x" and "x < 10000"
  shows "sched_hour (Some x) = Inr (x div 100)"
proof -
  define n where "n = nat x"
  have n: "n < 10000" and x: "x = int n"
    using assms by (simp_all add: n_def)
  have a: "n div 1000 < 10" using n by simp
  have b: "n div 100 mod 10 < 10" by simp
  have "n div 100 div 10 = n div 1000"
    by (simp add: div_mult2_eq [symmetric])
  then have "10 * (n div 1000) + n div 100 mod 10 = n div 100"
    using mult_div_mod_eq [of 10 "n div 100"] by simp
  then have "int_of_str (take 2 (zfill 4 (str_nat n))) = Inr (int (n div 100))"
    using int_of_str_two_digits [OF a b] by (simp only: hhmm_prefix [OF n])
  moreover have "str_int x = str_nat n"
    using assms by (simp add: str_int_def n_def)
  ultimately have "sched_hour (Some x) = Inr (int (n div 100))"
    by (simp add: sched_hour_def)
  then show ?thesis
    by (simp add: x zdiv_int)
qed

text \<open>
  Claim C1. For a flight whose scheduled departure is an HHMM value (a non-negative
  integer of at most four digits), the scheduled hour derived by the delay page
  (\<^verbatim>\<open>SCHED_HOUR\<close>) and by the cancelled-flights page (\<^verbatim>\<open>HOUR\<close>) is the scheduled
  departure divided by 100, rounded down: the value read as four digits with zeros on
  the left, without its last two. For 555 this is 5.
\<close>

theorem scheduled_hour_is_div_100:
  assumes "SCHEDULED_DEPARTURE f = Some x" and "0 \<le> x" and "x < 10000"
  shows "(\<exists>f'. delay_enrich_row am f = Inr f' \<and> SCHED_HOUR f' = Some (x div 100)) \<and>
         (\<exists>f'. cancelled_enrich_row am cm f = Inr f' \<and> HOUR f' = Some (x div 100))"
  using assms sched_hour_hhmm [of x]
  by (simp add: delay_enrich_row_def cancelled_enrich_row_def Let_def)

theorem scheduled_hour_555:
  "SCHEDULED_DEPARTURE flight0 = Some 555 \<and> (0::int) \<le> 555 \<and> (555::int) < 10000 \<and>
   (\<exists>f'. delay_enrich_row Map.empty flight0 = Inr f' \<and> SCHED_HOUR f' = Some 5) \<and>
   (\<exists>f'. cancelled_enrich_row Map.empty Map.empty flight0 = Inr f' \<and> HOUR f' = Some 5)"
proof -
  have h: "SCHEDULED_DEPARTURE flight0 = Some 555"
    by (simp add: flight0_def)
  show ?thesis
    using h scheduled_hour_is_div_100 [OF h, of Map.empty Map.empty] by simp
qed

section \<open>Distance bins\<close>

text \<open>The first bin holds the distances from 1 to 500; a distance of 0 or less has no bin.\<close>

lemma cut_first_bin: "0 < d \<Longrightarrow> d \<le> 500 \<Longrightarrow> cut bins labels d = Some ''<500''"
  by (simp add: bins_def labels_def)

lemma cut_not_positive: "d \<le> 0 \<Longrightarrow> cut bins labels d = None"
  by (simp add: bins_def labels_def)

text \<open>
  Claim C2. The claim says that the distances 499, 500, 2999, 3000 and -5 fall into
  the bins \<^verbatim>\<open><500\<close>, \<^verbatim>\<open>500-999\<close>, \<^verbatim>\<open>2500+\<close>, none and none. In the code the bins
  are closed on the right: 500 is put into \<^verbatim>\<open><500\<close>, against the bin's own label.
  3000 is removed by the filter before binning; -5 passes the filter, gets no bin and
  drops out of the grouped mean. The five flights have the delays 10, 20, 30, 40, 50, so
  the mean 15 of the first bin shows the flight of distance 500 in it.
\<close>

theorem distance_500_binned_below_500:
  "(case delay_enrichment airlines0 distance_example of
      Inl e \<Rightarrow> False
    | Inr t \<Rightarrow>
        map (\<lambda>(f, b). (DISTANCE f, b)) (distance_bin_df 5 t) =
          [(Some 499, Some ''<500''), (Some 500, Some ''<500''), (Some 2999, Some ''2500+''),
           (Some (- 5), None)] \<and>
        delay_by_distance_range 5 t = [(''<500'', Finite 15), (''2500+'', Finite 30)])"
  by code_simp

section \<open>The geo-sample\<close>

lemma sample_raises: "length df < n \<Longrightarrow> sample np df n rs g = (Inl ValueError, g)"
  by (simp add: sample_def)

lemma sample_seeded:
  "sample np df n (Some seed) g =
     (if length df < n then Inl ValueError
      else Inr (map (\<lambda>i. df ! i) (take n (fst (permutation np (RandomState np seed) (length df))))), g)"
  by (simp add: sample_def)

lemma length_permutation:
  assumes "permutes_positions np"
  shows "length (fst (permutation np g n)) = n"
proof -
  have d: "distinct (fst (permutation np g n))" and s: "set (fst (permutation np g n)) = {..<n}"
    using assms by (simp_all add: permutes_positions_def)
  have "length (fst (permutation np g n)) = card (set (fst (permutation np g n)))"
    using d by (simp add: distinct_card)
  then show ?thesis by (simp add: s)
qed

text \<open>A sample that is returned has the size asked for and consists of rows of the frame.\<close>

lemma sample_rows:
  assumes "permutes_positions np" and "sample np df n rs g = (Inr s, g')"
  shows "set s \<subseteq> set df \<and> length s = n"
proof -
  have n: "n \<le> length df"
    using assms(2) by (auto simp: sample_def split: if_splits)
  obtain p where p: "s = map (\<lambda>i. df ! i) (take n p)" "set p = {..<length df}" "length p = length df"
  proof (cases rs)
    case None
    then have "s = map (\<lambda>i. df ! i) (take n (fst (permutation np g (length df))))"
      using assms(2) n by (auto simp: sample_def split: prod.splits)
    then show ?thesis
      using that assms(1) length_permutation [OF assms(1)] by (simp add: permutes_positions_def)
  next
    case (Some seed)
    then have "s = map (\<lambda>i. df ! i) (take n (fst (permutation np (RandomState np seed) (length df))))"
      using assms(2) n by (auto simp: sample_def)
    then show ?thesis
      using that assms(1) length_permutation [OF assms(1)] by (simp add: permutes_positions_def)
  qed
  have "set (take n p) \<subseteq> {..<length df}"
    using p(2) set_take_subset [of n p] by simp
  then have "set s \<subseteq> set df"
    by (auto simp: p(1))
  moreover have "length s = n"
    using n by (simp add: p)
  ultimately show ?thesis by simp
qed

lemma select_airline_None: "select_airline None fl = fl"
  by (simp add: select_airline_def)

lemma show_map_raises:
  assumes "length (filter (\<lambda>(a, b). a \<in> set (airport_coords_index airports) \<and> b \<in> set (airport_coords_index airports))
                    (endpoints (select_airline a fl))) < min 300 (length (select_airline a fl))"
  shows "show_map np airports a fl g = (Inl ValueError, g)"
  using assms by (simp add: show_map_def Let_def sample_raises)

lemma cancel_map_raises:
  assumes "length (filter (\<lambda>f. isin (ORIGIN_AIRPORT f) (airport_coords_index airports) \<and>
                               isin (DESTINATION_AIRPORT f) (airport_coords_index airports))
                    (filter (\<lambda>f. CANCELLED f = 1) fl)) < min 300 (length (filter (\<lambda>f. CANCELLED f = 1) fl))"
  shows "cancel_map np airports fl g = (Inl ValueError, g)"
  using assms by (simp add: cancel_map_def Let_def sample_raises)

text \<open>With no flight left by the airline filter, the map is empty and nothing is raised.\<close>

lemma show_map_empty_frame:
  assumes "select_airline a fl = []"
  shows "show_map np airports a fl g = (Inr ([], []), g)"
  using assms by (simp add: show_map_def Let_def sample_def airports_used_def unique_def)

text \<open>When \<^verbatim>\<open>show_map\<close> returns, the sample has the size computed from the unfiltered frame.\<close>

lemma show_map_sample_size:
  assumes "permutes_positions np" and "show_map np airports a fl g = (Inr (s, u), g')"
  shows "length s = min 300 (length (select_airline a fl))"
proof -
  let ?rows = "filter (\<lambda>(a, b). a \<in> set (airport_coords_index airports) \<and> b \<in> set (airport_coords_index airports))
                 (endpoints (select_airline a fl))"
  have "sample np ?rows (min 300 (length (select_airline a fl))) (Some 42) g = (Inr s, g')"
    using assms(2) by (auto simp: show_map_def Let_def split: prod.splits sum.splits)
  then show ?thesis
    using sample_rows [OF assms(1)] by blast
qed

text \<open>
  Claim C3. The claim says that the sample size is the smaller of 300 and the number
  of rows left by the coordinate filter. The code takes the smaller of 300 and
  \<^verbatim>\<open>len(df)\<close>, the number of rows before that filter, and pandas raises when this is
  more than the rows left. Of two flights, one to an airport without an entry, one row
  is left; the claim gives a sample of one row, the code asks for two and raises
  \<^verbatim>\<open>ValueError\<close>, in \<^verbatim>\<open>show_map\<close> and in \<^verbatim>\<open>cancel_map\<close> alike.
\<close>

theorem map_sample_size_taken_before_coordinate_filter:
  "length (filter (\<lambda>(a, b). a \<in> set (airport_coords_index airports0) \<and> b \<in> set (airport_coords_index airports0))
             (endpoints (overview_enrichment airlines0 airports0 unknown_dest_example))) = 1 \<and>
   show_map np airports0 None (overview_enrichment airlines0 airports0 unknown_dest_example) g
     = (Inl ValueError, g) \<and>
   cancel_map np airports0 cancelled_unknown_dest_example g = (Inl ValueError, g)"
proof -
  let ?t = "overview_enrichment airlines0 airports0 unknown_dest_example"
  have a: "length ?t = 2"
    by code_simp
  have b: "length (filter (\<lambda>(a, b). a \<in> set (airport_coords_index airports0) \<and> b \<in> set (airport_coords_index airports0))
             (endpoints ?t)) = 1"
    by code_simp
  have c: "show_map np airports0 None ?t g = (Inl ValueError, g)"
    by (rule show_map_raises) (simp add: select_airline_None a b)
  have d: "length (filter (\<lambda>f. CANCELLED f = 1) cancelled_unknown_dest_example) = 2"
    by code_simp
  have e: "length (filter (\<lambda>f. isin (ORIGIN_AIRPORT f) (airport_coords_index airports0) \<and>
                               isin (DESTINATION_AIRPORT f) (airport_coords_index airports0))
             (filter (\<lambda>f. CANCELLED f = 1) cancelled_unknown_dest_example)) = 1"
    by code_simp
  have "cancel_map np airports0 cancelled_unknown_dest_example g = (Inl ValueError, g)"
    using d e by (intro cancel_map_raises) arith
  with b c show ?thesis by simp
qed

text \<open>
  Claim C4. The claim says that no chart function raises when its filtered subset is
  empty. With one flight of airline AA, to an airport without an entry, and AA selected,
  no row has both endpoints in the coordinate table: the set to sample from is empty,
  and \<^verbatim>\<open>show_map\<close> raises \<^verbatim>\<open>ValueError\<close> instead of drawing an empty map, because it asks
  for \<^verbatim>\<open>min(300, len(df)) = 1\<close> rows of it.
\<close>

theorem show_map_raises_on_empty_geo_subset:
  "filter (\<lambda>(a, b). a \<in> set (airport_coords_index airports0) \<and> b \<in> set (airport_coords_index airports0))
     (endpoints (select_airline (Some ''AA'') (overview_enrichment airlines0 airports0 only_unknown_example))) = [] \<and>
   show_map np airports0 (Some ''AA'') (overview_enrichment airlines0 airports0 only_unknown_example) g
     = (Inl ValueError, g)"
proof -
  let ?t = "overview_enrichment airlines0 airports0 only_unknown_example"
  have a: "length (select_airline (Some ''AA'') ?t) = 1"
    by code_simp
  have b: "filter (\<lambda>(a, b). a \<in> set (airport_coords_index airports0) \<and> b \<in> set (airport_coords_index airports0))
             (endpoints (select_airline (Some ''AA'') ?t)) = []"
    by code_simp
  have "show_map np airports0 (Some ''AA'') ?t g = (Inl ValueError, g)"
    by (rule show_map_raises) (simp add: a b)
  with b show ?thesis by simp
qed

text \<open>
  The violin plot samples with the process-wide generator instead: what it returns
  depends on the state of that generator, and the call advances it.
\<close>

lemma delay_violin_depends_on_generator_state:
  "(case delay_enrichment airlines0 missing_delay_example of
      Inl e \<Rightarrow> False
    | Inr t \<Rightarrow> fst (delay_violin np_flip 5 t True) \<noteq> fst (delay_violin np_flip 5 t False) \<and>
               snd (delay_violin np_flip 5 t True) \<noteq> True)"
  by code_simp

text \<open>
  Claim C7. The geo-sample is drawn from a generator seeded with 42 at each call: what
  \<^verbatim>\<open>show_map\<close> and \<^verbatim>\<open>cancel_map\<close> return on a table and a filter value is the same
  whatever the state of the process-wide generator, and they leave that state as it
  was. Two calls on the same table and filter value select the same rows.
\<close>

theorem geo_sample_independent_of_generator_state:
  "fst (show_map np airports a fl g1) = fst (show_map np airports a fl g2) \<and>
   snd (show_map np airports a fl g1) = g1 \<and>
   fst (cancel_map np airports fl g1) = fst (cancel_map np airports fl g2) \<and>
   snd (cancel_map np airports fl g1) = g1"
  by (simp add: show_map_def cancel_map_def Let_def sample_seeded)

section \<open>Rate aggregates\<close>

lemma set_dropna: "set (dropna xs) = {x. Some x \<in> set xs}"
  by (induction xs rule: dropna.induct) auto

lemma set_unique: "set (unique xs) = set xs"
  by (simp add: unique_def)

lemma groupby_member:
  "(k, rows) \<in> set (groupby key df) \<longleftrightarrow>
     (\<exists>r\<in>set df. key r = Some k) \<and> rows = filter (\<lambda>r. key r = Some k) df"
proof -
  have "set (groupby key df) = (\<lambda>k. (k, filter (\<lambda>r. key r = Some k) df)) ` {k. Some k \<in> key ` set df}"
    by (simp add: groupby_def set_unique set_dropna)
  then show ?thesis by (auto simp: image_iff) metis+
qed

lemma sum_cancelled_bounds:
  assumes "\<forall>f\<in>set rows. CANCELLED f = 0 \<or> CANCELLED f = 1"
  shows "0 \<le> sum_list (map CANCELLED rows) \<and> sum_list (map CANCELLED rows) \<le> int (length rows)"
  using assms by (induction rows) auto

lemma cancel_rates_member:
  assumes "(k, c, t, r) \<in> set (cancel_rates key flights)"
  shows "(\<exists>f\<in>set flights. key f = Some k) \<and>
         t = int (length (filter (\<lambda>f. key f = Some k) flights)) \<and>
         c = sum_list (map CANCELLED (filter (\<lambda>f. key f = Some k) flights)) \<and>
         r = true_div (100 * c) t"
  using assms by (auto simp: cancel_rates_def groupby_member Let_def)

lemma cancel_rates_row:
  assumes "\<forall>f\<in>set flights. CANCELLED f = 0 \<or> CANCELLED f = 1"
    and "(k, c, t, r) \<in> set (cancel_rates key flights)"
  shows "0 < t \<and> t = int (length (filter (\<lambda>f. key f = Some k) flights)) \<and>
         r = true_div (100 * c) t \<and> in_percent_range r"
proof -
  let ?rows = "filter (\<lambda>f. key f = Some k) flights"
  from cancel_rates_member [OF assms(2)]
  obtain f where f: "f \<in> set flights" "key f = Some k"
    and t: "t = int (length ?rows)" and c: "c = sum_list (map CANCELLED ?rows)"
    and r: "r = true_div (100 * c) t"
    by blast
  have "f \<in> set ?rows" using f by simp
  then have "?rows \<noteq> []" by (metis empty_iff empty_set)
  then have pos: "0 < t" by (simp add: t)
  have "\<forall>f\<in>set ?rows. CANCELLED f = 0 \<or> CANCELLED f = 1"
    using assms(1) by simp
  from sum_cancelled_bounds [OF this] have cb: "0 \<le> c" "c \<le> t"
    by (simp_all add: c t)
  have q: "r = Finite (of_int (100 * c) / of_int t)"
    using pos by (simp add: r true_div_def)
  have "(0::rat) \<le> of_int (100 * c) / of_int t"
    using cb pos by simp
  moreover have "of_int (100 * c) / of_int t \<le> (100::rat)"
  proof -
    have "(of_int c :: rat) \<le> of_int t" using cb by simp
    then have "(of_int (100 * c) :: rat) \<le> 100 * of_int t" by simp
    then show ?thesis using pos by (simp add: divide_le_eq)
  qed
  ultimately have "in_percent_range r"
    unfolding q in_percent_range_def by simp
  with pos t r show ?thesis by blast
qed

lemma cancel_rate_bar_subset: "set (cancel_rate_bar flights) \<subseteq> set (cancel_rates ROUTE flights)"
proof -
  have "set (take 15 (sort_key (\<lambda>(k, c, t, r). descending r) (cancel_rates ROUTE flights)))
          \<subseteq> set (sort_key (\<lambda>(k, c, t, r). descending r) (cancel_rates ROUTE flights))"
    by (rule set_take_subset)
  then show ?thesis by (simp add: cancel_rate_bar_def Let_def)
qed

text \<open>
  Claim C5. When \<^verbatim>\<open>CANCELLED\<close> is an indicator (0 or 1 in every row), every row of the
  three rate tables (cancellation rate by day, by airline and day, by route, the last one
  cut to its 15 largest rates) stands for a group of at least one flight, its rate is
  \<open>100 * cancelled / total\<close> with that positive total, and the rate is a number between 0
  and 100. A key that no flight has gives no row: no rate is computed for an empty group,
  so none is NaN.
\<close>

theorem cancellation_rates_in_range:
  assumes "\<forall>f\<in>set flights. CANCELLED f = 0 \<or> CANCELLED f = 1"
  shows "(\<forall>(k, c, t, r) \<in> set (cancel_day_bar flights).
            0 < t \<and> t = int (length (filter (\<lambda>f. DAY_NAME f = Some k) flights)) \<and>
            r = true_div (100 * c) t \<and> in_percent_range r) \<and>
         (\<forall>((a, d), c, t, r) \<in> set (cancel_heat flights).
            0 < t \<and> t = int (length (filter (\<lambda>f. AIRLINE_NAME f = Some a \<and> DAY_NAME f = Some d) flights)) \<and>
            r = true_div (100 * c) t \<and> in_percent_range r) \<and>
         (\<forall>(k, c, t, r) \<in> set (cancel_rate_bar flights).
            0 < t \<and> t = int (length (filter (\<lambda>f. ROUTE f = Some k) flights)) \<and>
            r = true_div (100 * c) t \<and> in_percent_range r)"
proof (intro conjI)
  show "\<forall>(k, c, t, r) \<in> set (cancel_day_bar flights).
            0 < t \<and> t = int (length (filter (\<lambda>f. DAY_NAME f = Some k) flights)) \<and>
            r = true_div (100 * c) t \<and> in_percent_range r"
    using cancel_rates_row [OF assms, where key = DAY_NAME]
    unfolding cancel_day_bar_def by fast
next
  have k: "\<And>f a d. key2 (AIRLINE_NAME f) (DAY_NAME f) = Some (a, d) \<longleftrightarrow>
                     AIRLINE_NAME f = Some a \<and> DAY_NAME f = Some d"
    by (auto simp: key2_def split: option.splits)
  show "\<forall>((a, d), c, t, r) \<in> set (cancel_heat flights).
            0 < t \<and> t = int (length (filter (\<lambda>f. AIRLINE_NAME f = Some a \<and> DAY_NAME f = Some d) flights)) \<and>
            r = true_div (100 * c) t \<and> in_percent_range r"
  proof clarify
    fix a d c t r
    assume "((a, d), c, t, r) \<in> set (cancel_heat flights)"
    then have "((a, d), c, t, r) \<in> set (cancel_rates (\<lambda>f. key2 (AIRLINE_NAME f) (DAY_NAME f)) flights)"
      by (simp add: cancel_heat_def)
    from cancel_rates_row [OF assms this]
    show "0 < t \<and> t = int (length (filter (\<lambda>f. AIRLINE_NAME f = Some a \<and> DAY_NAME f = Some d) flights)) \<and>
            r = true_div (100 * c) t \<and> in_percent_range r"
      unfolding k by blast
  qed
next
  show "\<forall>(k, c, t, r) \<in> set (cancel_rate_bar flights).
            0 < t \<and> t = int (length (filter (\<lambda>f. ROUTE f = Some k) flights)) \<and>
            r = true_div (100 * c) t \<and> in_percent_range r"
    using cancel_rates_row [OF assms, where key = ROUTE] cancel_rate_bar_subset [of flights]
    by fast
qed


theorem cancellation_rates_example:
  "(case cancelled_enrichment airlines0 airports0 rates_example of
      Inl e \<Rightarrow> False
    | Inr T \<Rightarrow>
        list_all (\<lambda>f. CANCELLED f = 0 \<or> CANCELLED f = 1) T \<and>
        cancel_day_bar T \<noteq> [] \<and>
        list_all (\<lambda>(k, c, t, r). 0 < t \<and> in_percent_range r) (cancel_day_bar T) \<and>
        list_all (\<lambda>(k, c, t, r). 0 < t \<and> in_percent_range r) (cancel_heat T) \<and>
        list_all (\<lambda>(k, c, t, r). 0 < t \<and> in_percent_range r) (cancel_rate_bar T))"
proof -
  have a: "(case cancelled_enrichment airlines0 airports0 rates_example of
              Inl e \<Rightarrow> False
            | Inr T \<Rightarrow> list_all (\<lambda>f. CANCELLED f = 0 \<or> CANCELLED f = 1) T \<and> cancel_day_bar T \<noteq> [])"
    by code_simp
  show ?thesis
  proof (cases "cancelled_enrichment airlines0 airports0 rates_example")
    case (Inl e)
    with a show ?thesis by simp
  next
    case (Inr T)
    with a have h: "\<forall>f\<in>set T. CANCELLED f = 0 \<or> CANCELLED f = 1" and n: "cancel_day_bar T \<noteq> []"
      by (simp_all add: list_all_iff)
    from cancellation_rates_in_range [OF h] h n Inr show ?thesis
      by (simp add: list_all_iff) fast
  qed
qed

section \<open>Enrichment\<close>

lemma apply_rows_member:
  "apply_rows f xs = Inr ys \<Longrightarrow> y \<in> set ys \<Longrightarrow> \<exists>x\<in>set xs. f x = Inr y"
  by (induction xs arbitrary: ys) (auto split: sum.splits)

lemma apply_rows_fixed:
  assumes "\<And>x y. f x = Inr y \<Longrightarrow> f y = Inr y"
  shows "apply_rows f xs = Inr ys \<Longrightarrow> apply_rows f ys = Inr ys"
  using assms by (induction xs arbitrary: ys) (auto split: sum.splits)

lemma apply_rows_total:
  assumes "\<forall>x\<in>set xs. \<exists>y. f x = Inr y"
  shows "\<exists>ys. apply_rows f xs = Inr ys"
  using assms by (induction xs) (auto split: sum.splits)

lemma overview_enrich_row_idem:
  "overview_enrich_row am cm (overview_enrich_row am cm f) = overview_enrich_row am cm f"
  by (simp add: overview_enrich_row_def Let_def)

lemma delay_enrich_row_idem:
  "delay_enrich_row am f = Inr f' \<Longrightarrow> delay_enrich_row am f' = Inr f'"
  by (auto simp: delay_enrich_row_def Let_def split: sum.splits)

lemma cancelled_enrich_row_idem:
  "cancelled_enrich_row am cm f = Inr f' \<Longrightarrow> cancelled_enrich_row am cm f' = Inr f'"
  by (auto simp: cancelled_enrich_row_def Let_def split: sum.splits)

text \<open>
  Claim C8. Enrichment run on a table that it has already enriched gives that table
  again: every derived column is computed from source columns, which enrichment does not
  change. This holds for the enrichment of the overview page, which never raises, and
  for those of the delay page and of the cancelled-flights page whenever the first run
  returns (they raise \<^verbatim>\<open>ValueError\<close> on a missing scheduled departure).
\<close>

theorem enrichment_idempotent:
  "overview_enrichment airlines airports (overview_enrichment airlines airports flights)
     = overview_enrichment airlines airports flights \<and>
   (\<forall>t. delay_enrichment airlines flights = Inr t \<longrightarrow> delay_enrichment airlines t = Inr t) \<and>
   (\<forall>t. cancelled_enrichment airlines airports flights = Inr t \<longrightarrow>
        cancelled_enrichment airlines airports t = Inr t)"
proof (intro conjI allI impI)
  show "overview_enrichment airlines airports (overview_enrichment airlines airports flights)
     = overview_enrichment airlines airports flights"
    by (simp add: overview_enrichment_def overview_enrich_row_idem)
next
  fix t assume "delay_enrichment airlines flights = Inr t"
  then show "delay_enrichment airlines t = Inr t"
    unfolding delay_enrichment_def by (rule apply_rows_fixed [rotated]) (rule delay_enrich_row_idem)
next
  fix t assume "cancelled_enrichment airlines airports flights = Inr t"
  then show "cancelled_enrichment airlines airports t = Inr t"
    unfolding cancelled_enrichment_def
    by (rule apply_rows_fixed [rotated]) (rule cancelled_enrich_row_idem)
qed

theorem enrichment_idempotent_example:
  "overview_enrichment airlines0 airports0 (overview_enrichment airlines0 airports0 rates_example)
     = overview_enrichment airlines0 airports0 rates_example \<and>
   (case delay_enrichment airlines0 rates_example of
      Inl e \<Rightarrow> False | Inr t \<Rightarrow> delay_enrichment airlines0 t = Inr t) \<and>
   (case cancelled_enrichment airlines0 airports0 rates_example of
      Inl e \<Rightarrow> False | Inr t \<Rightarrow> cancelled_enrichment airlines0 airports0 t = Inr t)"
proof -
  have a: "(case delay_enrichment airlines0 rates_example of Inl e \<Rightarrow> False | Inr t \<Rightarrow> True)"
    by code_simp
  have b: "(case cancelled_enrichment airlines0 airports0 rates_example of Inl e \<Rightarrow> False | Inr t \<Rightarrow> True)"
    by code_simp
  show ?thesis
    using enrichment_idempotent [of airlines0 airports0 rates_example] a b
    by (simp split: sum.splits)
qed


section \<open>Flights without a recorded delay\<close>

lemma value_counts_member:
  "(k, n) \<in> set (value_counts xs) \<longleftrightarrow> k \<in> set (dropna xs) \<and> n = count_list (dropna xs) k"
proof -
  have "set (value_counts xs) = (\<lambda>k. (k, count_list (dropna xs) k)) ` set (dropna xs)"
    by (simp add: value_counts_def Let_def set_unique)
  then show ?thesis by auto
qed

lemma count_pos_member: "0 < count_list xs x \<Longrightarrow> x \<in> set xs"
  by (induction xs) (auto split: if_splits)

lemma count_dropna_map:
  "count_list (dropna (map col df)) k = length (filter (\<lambda>f. col f = Some k) df)"
proof (induction df)
  case Nil
  show ?case by simp
next
  case (Cons f df)
  then show ?case by (cases "col f") auto
qed

lemma delay_enrich_row_fields:
  assumes "delay_enrich_row am f0 = Inr f"
  shows "ON_TIME f = Some (on_time (DEPARTURE_DELAY f)) \<and>
         sched_hour (SCHEDULED_DEPARTURE f) = Inr (the (SCHED_HOUR f)) \<and> SCHED_HOUR f \<noteq> None"
  using assms by (auto simp: delay_enrich_row_def Let_def split: sum.splits)

lemma delay_enrichment_row:
  assumes "delay_enrichment airlines flights = Inr t" and "f \<in> set t"
  shows "ON_TIME f = Some (on_time (DEPARTURE_DELAY f)) \<and>
         sched_hour (SCHEDULED_DEPARTURE f) = Inr (the (SCHED_HOUR f)) \<and> SCHED_HOUR f \<noteq> None"
proof -
  from apply_rows_member [OF assms(1) [unfolded delay_enrichment_def] assms(2)]
  obtain f0 where "delay_enrich_row (airline_map airlines) f0 = Inr f" by blast
  then show ?thesis by (rule delay_enrich_row_fields)
qed

text \<open>
  Claim C9. In the table of the delay page, a flight whose departure delay is missing
  has the label \<^verbatim>\<open>Delayed\<close>, since \<^verbatim>\<open>NaN <= 0\<close> is false. The pie chart of an hour
  counts under \<^verbatim>\<open>Delayed\<close> all flights of that hour that are not cancelled and whose
  delay is missing or positive: a flight without a delay that the filter keeps is counted
  as delayed.
\<close>

theorem missing_delay_counted_as_delayed:
  assumes "delay_enrichment airlines flights = Inr t"
  shows "(\<forall>f\<in>set t. DEPARTURE_DELAY f = None \<longrightarrow> ON_TIME f = Some ''Delayed'') \<and>
         (\<forall>hour n. n = length (filter (\<lambda>f. CANCELLED f = 0 \<and> SCHED_HOUR f = Some hour \<and>
                                   (case DEPARTURE_DELAY f of None \<Rightarrow> True | Some d \<Rightarrow> 0 < d)) t) \<and> 0 < n
            \<longrightarrow> (''Delayed'', n) \<in> set (on_time_vs_delayed hour t))"
proof (intro conjI ballI allI impI)
  fix f assume "f \<in> set t" "DEPARTURE_DELAY f = None"
  then show "ON_TIME f = Some ''Delayed''"
    using delay_enrichment_row [OF assms] by (simp add: on_time_def le_nan_def)
next
  fix hour n
  let ?df = "filter (\<lambda>f. CANCELLED f = 0 \<and> SCHED_HOUR f = Some hour) t"
  assume n: "n = length (filter (\<lambda>f. CANCELLED f = 0 \<and> SCHED_HOUR f = Some hour \<and>
                (case DEPARTURE_DELAY f of None \<Rightarrow> True | Some d \<Rightarrow> 0 < d)) t) \<and> 0 < n"
  have lab: "\<And>f. f \<in> set t \<Longrightarrow>
      (ON_TIME f = Some ''Delayed'') = (case DEPARTURE_DELAY f of None \<Rightarrow> True | Some d \<Rightarrow> 0 < d)"
    using delay_enrichment_row [OF assms]
    by (auto simp: on_time_def le_nan_def split: option.splits)
  have "filter (\<lambda>f. ON_TIME f = Some ''Delayed'') ?df =
        filter (\<lambda>f. CANCELLED f = 0 \<and> SCHED_HOUR f = Some hour \<and>
                (case DEPARTURE_DELAY f of None \<Rightarrow> True | Some d \<Rightarrow> 0 < d)) t"
    unfolding filter_filter by (rule filter_cong) (auto simp: lab)
  then have c: "count_list (dropna (map ON_TIME ?df)) ''Delayed'' = n"
    using n by (simp only: count_dropna_map)
  have "0 < count_list (dropna (map ON_TIME ?df)) ''Delayed''"
    using c n by linarith
  then have "''Delayed'' \<in> set (dropna (map ON_TIME ?df))"
    by (rule count_pos_member)
  with c show "(''Delayed'', n) \<in> set (on_time_vs_delayed hour t)"
    by (simp add: on_time_vs_delayed_def Let_def value_counts_member)
qed

theorem missing_delay_example_counted:
  "(case delay_enrichment airlines0 missing_delay_example of
      Inl e \<Rightarrow> False
    | Inr t \<Rightarrow> DEPARTURE_DELAY (hd t) = None \<and> CANCELLED (hd t) = 0 \<and> ON_TIME (hd t) = Some ''Delayed'' \<and>
               (''Delayed'', 2) \<in> set (on_time_vs_delayed 5 t))"
proof -
  have a: "(case delay_enrichment airlines0 missing_delay_example of
      Inl e \<Rightarrow> False
    | Inr t \<Rightarrow> t \<noteq> [] \<and> DEPARTURE_DELAY (hd t) = None \<and> CANCELLED (hd t) = 0 \<and>
        length (filter (\<lambda>f. CANCELLED f = 0 \<and> SCHED_HOUR f = Some 5 \<and>
                 (case DEPARTURE_DELAY f of None \<Rightarrow> True | Some d \<Rightarrow> 0 < d)) t) = 2)"
    by code_simp
  show ?thesis
  proof (cases "delay_enrichment airlines0 missing_delay_example")
    case (Inl e)
    with a show ?thesis by simp
  next
    case (Inr t)
    with a have t: "t \<noteq> []" "DEPARTURE_DELAY (hd t) = None" "CANCELLED (hd t) = 0"
      and n: "length (filter (\<lambda>f. CANCELLED f = 0 \<and> SCHED_HOUR f = Some 5 \<and>
                 (case DEPARTURE_DELAY f of None \<Rightarrow> True | Some d \<Rightarrow> 0 < d)) t) = 2"
      by simp_all
    have h: "hd t \<in> set t" using t(1) by simp
    have "ON_TIME (hd t) = Some ''Delayed''"
      using missing_delay_counted_as_delayed [OF Inr, THEN conjunct1] h t(2) by blast
    moreover have "(''Delayed'', 2) \<in> set (on_time_vs_delayed 5 t)"
      using missing_delay_counted_as_delayed [OF Inr, THEN conjunct2, rule_format, of 2 5] n by simp
    ultimately show ?thesis using t Inr by simp
  qed
qed


section \<open>The hour 24\<close>

lemma sched_hour_2400: "sched_hour (Some 2400) = Inr 24"
  using sched_hour_hhmm [of 2400] by simp

lemma hour_filter_drop:
  assumes "\<And>f. f \<in> set t \<Longrightarrow> \<not> Q f \<Longrightarrow> \<not> P f"
  shows "filter P (filter Q t) = filter P t"
  unfolding filter_filter using assms by (intro filter_cong) auto

text \<open>
  Claim C10. A scheduled departure of 2400 gives the scheduled hour 24. The hour slider
  offers 0 to 23, so for every hour it can select, each of the four charts that filter
  on the hour (box plot, violin plot, delay by distance range, on-time pie) is computed
  as if the flights scheduled at 2400 were not in the table.
\<close>

theorem hour_24_in_no_hour_chart:
  assumes "delay_enrichment airlines flights = Inr t" and "0 \<le> hour" and "hour \<le> 23"
  shows "(\<forall>f\<in>set t. SCHEDULED_DEPARTURE f = Some 2400 \<longrightarrow> SCHED_HOUR f = Some 24) \<and>
         update_boxplot hour t = update_boxplot hour (filter (\<lambda>f. SCHEDULED_DEPARTURE f \<noteq> Some 2400) t) \<and>
         delay_violin np hour t g = delay_violin np hour (filter (\<lambda>f. SCHEDULED_DEPARTURE f \<noteq> Some 2400) t) g \<and>
         delay_by_distance_range hour t
           = delay_by_distance_range hour (filter (\<lambda>f. SCHEDULED_DEPARTURE f \<noteq> Some 2400) t) \<and>
         on_time_vs_delayed hour t
           = on_time_vs_delayed hour (filter (\<lambda>f. SCHEDULED_DEPARTURE f \<noteq> Some 2400) t)"
proof -
  let ?Q = "\<lambda>f. SCHEDULED_DEPARTURE f \<noteq> Some 2400"
  have h24: "\<And>f. f \<in> set t \<Longrightarrow> SCHEDULED_DEPARTURE f = Some 2400 \<Longrightarrow> SCHED_HOUR f = Some 24"
  proof -
    fix f assume f: "f \<in> set t" "SCHEDULED_DEPARTURE f = Some 2400"
    from delay_enrichment_row [OF assms(1) f(1)]
    have "sched_hour (SCHEDULED_DEPARTURE f) = Inr (the (SCHED_HOUR f))" "SCHED_HOUR f \<noteq> None"
      by simp_all
    then show "SCHED_HOUR f = Some 24"
      using f(2) by (auto simp: sched_hour_2400)
  qed
  have out: "\<And>f. f \<in> set t \<Longrightarrow> \<not> ?Q f \<Longrightarrow> SCHED_HOUR f \<noteq> Some hour"
    using h24 assms(3) by auto
  have a: "filter (\<lambda>f. SCHED_HOUR f = Some hour \<and> CANCELLED f = 0) (filter ?Q t)
             = filter (\<lambda>f. SCHED_HOUR f = Some hour \<and> CANCELLED f = 0) t"
    by (rule hour_filter_drop) (use out in blast)
  have b: "filter (\<lambda>f. SCHED_HOUR f = Some hour \<and> between (DEPARTURE_DELAY f) (- 10) 180) (filter ?Q t)
             = filter (\<lambda>f. SCHED_HOUR f = Some hour \<and> between (DEPARTURE_DELAY f) (- 10) 180) t"
    by (rule hour_filter_drop) (use out in blast)
  have c: "filter (\<lambda>f. CANCELLED f = 0 \<and> SCHED_HOUR f = Some hour \<and> lt_nan (DISTANCE f) 3000) (filter ?Q t)
             = filter (\<lambda>f. CANCELLED f = 0 \<and> SCHED_HOUR f = Some hour \<and> lt_nan (DISTANCE f) 3000) t"
    by (rule hour_filter_drop) (use out in blast)
  have d: "filter (\<lambda>f. CANCELLED f = 0 \<and> SCHED_HOUR f = Some hour) (filter ?Q t)
             = filter (\<lambda>f. CANCELLED f = 0 \<and> SCHED_HOUR f = Some hour) t"
    by (rule hour_filter_drop) (use out in blast)
  have 1: "update_boxplot hour t = update_boxplot hour (filter ?Q t)"
    unfolding update_boxplot_def a ..
  have 2: "delay_violin np hour t g = delay_violin np hour (filter ?Q t) g"
    unfolding delay_violin_def b ..
  have 3: "delay_by_distance_range hour t = delay_by_distance_range hour (filter ?Q t)"
    unfolding delay_by_distance_range_def distance_bin_df_def c ..
  have 4: "on_time_vs_delayed hour t = on_time_vs_delayed hour (filter ?Q t)"
    unfolding on_time_vs_delayed_def d ..
  from h24 1 2 3 4 show ?thesis by blast
qed

theorem hour_24_example:
  "(case delay_enrichment airlines0 midnight_example of
      Inl e \<Rightarrow> False
    | Inr t \<Rightarrow>
        SCHEDULED_DEPARTURE (hd t) = Some 2400 \<and> SCHED_HOUR (hd t) = Some 24 \<and>
        (0::int) \<le> 23 \<and> (23::int) \<le> 23 \<and>
        update_boxplot 23 t = update_boxplot 23 (filter (\<lambda>f. SCHEDULED_DEPARTURE f \<noteq> Some 2400) t) \<and>
        delay_violin np_rev 23 t () = delay_violin np_rev 23 (filter (\<lambda>f. SCHEDULED_DEPARTURE f \<noteq> Some 2400) t) () \<and>
        delay_by_distance_range 23 t
          = delay_by_distance_range 23 (filter (\<lambda>f. SCHEDULED_DEPARTURE f \<noteq> Some 2400) t) \<and>
        on_time_vs_delayed 23 t
          = on_time_vs_delayed 23 (filter (\<lambda>f. SCHEDULED_DEPARTURE f \<noteq> Some 2400) t))"
proof -
  have a: "(case delay_enrichment airlines0 midnight_example of
      Inl e \<Rightarrow> False
    | Inr t \<Rightarrow> t \<noteq> [] \<and> SCHEDULED_DEPARTURE (hd t) = Some 2400)"
    by code_simp
  show ?thesis
  proof (cases "delay_enrichment airlines0 midnight_example")
    case (Inl e)
    with a show ?thesis by simp
  next
    case (Inr t)
    with a have t: "t \<noteq> []" "SCHEDULED_DEPARTURE (hd t) = Some 2400"
      by simp_all
    have h: "hd t \<in> set t" using t(1) by simp
    have r: "(0::int) \<le> 23" "(23::int) \<le> 23" by simp_all
    have "SCHED_HOUR (hd t) = Some 24"
      using hour_24_in_no_hour_chart [OF Inr r, THEN conjunct1] h t(2) by blast
    then show ?thesis
      using hour_24_in_no_hour_chart [OF Inr r, of np_rev "()", THEN conjunct2] t Inr by simp
  qed
qed


section \<open>Flights with an airport code that the airport table does not have\<close>

lemma city_map_None: "city_map airports c = None \<longleftrightarrow> c \<notin> set (map IATA_CODE airports)"
proof -
  have "zip (map IATA_CODE airports) (map CITY airports) = map (\<lambda>a. (IATA_CODE a, CITY a)) airports"
    by (induction airports) auto
  then show ?thesis
    by (simp add: city_map_def dict_zip_def map_of_eq_None_iff image_image)
qed

lemma series_map_absent:
  "\<not> in_airport_ref airports v \<Longrightarrow> series_map (city_map airports) v = None"
  by (cases v) (simp_all add: series_map_def in_airport_ref_def city_map_None)

lemma route_None:
  "oc = None \<or> dc = None \<Longrightarrow> str_add (str_add oc (Some arrow)) dc = None"
  by (auto simp: str_add_def split: option.splits)

lemma overview_row_cities:
  assumes "f \<in> set (overview_enrichment airlines airports flights)"
  shows "ORIGIN_CITY f = series_map (city_map airports) (ORIGIN_AIRPORT f) \<and>
         DEST_CITY f = series_map (city_map airports) (DESTINATION_AIRPORT f) \<and>
         ROUTE f = str_add (str_add (ORIGIN_CITY f) (Some arrow)) (DEST_CITY f)"
  using assms by (auto simp: overview_enrichment_def overview_enrich_row_def Let_def)

lemma cancelled_row_cities:
  assumes "cancelled_enrichment airlines airports flights = Inr t" and "f \<in> set t"
  shows "ORIGIN_CITY f = series_map (city_map airports) (ORIGIN_AIRPORT f) \<and>
         DEST_CITY f = series_map (city_map airports) (DESTINATION_AIRPORT f) \<and>
         ROUTE f = str_add (str_add (ORIGIN_CITY f) (Some arrow)) (DEST_CITY f)"
proof -
  from apply_rows_member [OF assms(1) [unfolded cancelled_enrichment_def] assms(2)]
  obtain f0 where "cancelled_enrich_row (airline_map airlines) (city_map airports) f0 = Inr f"
    by blast
  then show ?thesis
    by (auto simp: cancelled_enrich_row_def Let_def split: sum.splits)
qed

text \<open>What both enriched tables have in common.\<close>

lemma absent_code_no_city:
  assumes "ORIGIN_CITY f = series_map (city_map airports) (ORIGIN_AIRPORT f) \<and>
         DEST_CITY f = series_map (city_map airports) (DESTINATION_AIRPORT f) \<and>
         ROUTE f = str_add (str_add (ORIGIN_CITY f) (Some arrow)) (DEST_CITY f)"
  shows "(\<not> in_airport_ref airports (ORIGIN_AIRPORT f) \<longrightarrow> ORIGIN_CITY f = None \<and> ROUTE f = None) \<and>
         (\<not> in_airport_ref airports (DESTINATION_AIRPORT f) \<longrightarrow> DEST_CITY f = None \<and> ROUTE f = None)"
  using assms series_map_absent [of airports "ORIGIN_AIRPORT f"]
    series_map_absent [of airports "DESTINATION_AIRPORT f"]
  by (auto simp: route_None)

lemma dropna_filter:
  assumes "\<forall>f\<in>set df. \<not> P f \<longrightarrow> col f = None"
  shows "dropna (map col (filter P df)) = dropna (map col df)"
  using assms
proof (induction df)
  case Nil
  show ?case by simp
next
  case (Cons f df)
  then show ?case by (cases "col f") auto
qed

lemma value_counts_filter:
  assumes "\<forall>f\<in>set df. \<not> P f \<longrightarrow> col f = None"
  shows "value_counts (map col (filter P df)) = value_counts (map col df)"
  by (simp add: value_counts_def dropna_filter [OF assms])

lemma select_airline_filter: "select_airline a (filter P t) = filter P (select_airline a t)"
  by (cases a) (auto simp: select_airline_def intro: filter_cong)

lemma set_select_airline: "set (select_airline a t) \<subseteq> set t"
  by (cases a) (auto simp: select_airline_def)

lemma groupby_filter:
  assumes "\<forall>f\<in>set df. \<not> P f \<longrightarrow> key f = None"
  shows "groupby key (filter P df) = groupby key df"
proof -
  have "\<And>k. filter (\<lambda>r. key r = Some k) (filter P df) = filter (\<lambda>r. key r = Some k) df"
    unfolding filter_filter using assms by (intro filter_cong) auto
  then show ?thesis
    by (simp add: groupby_def dropna_filter [OF assms])
qed

lemma cancel_rates_filter:
  assumes "\<forall>f\<in>set df. \<not> P f \<longrightarrow> key f = None"
  shows "cancel_rates key (filter P df) = cancel_rates key df"
  by (simp add: cancel_rates_def groupby_filter [OF assms])

lemma coords_index_in_ref:
  "c \<in> set (airport_coords_index airports) \<Longrightarrow> in_airport_ref airports (Some c)"
  by (auto simp: airport_coords_index_def airport_coords_def in_airport_ref_def)

lemma isin_coords_in_ref:
  "isin v (airport_coords_index airports) \<Longrightarrow> in_airport_ref airports v"
  by (cases v) (auto simp: isin_def coords_index_in_ref)

lemma show_map_rows:
  assumes "permutes_positions np" and "show_map np airports a t g = (Inr (s, u), g')"
  shows "\<forall>(c, d)\<in>set s. in_airport_ref airports (Some c) \<and> in_airport_ref airports (Some d)"
proof -
  let ?rows = "filter (\<lambda>(a, b). a \<in> set (airport_coords_index airports) \<and> b \<in> set (airport_coords_index airports))
                 (endpoints (select_airline a t))"
  have "sample np ?rows (min 300 (length (select_airline a t))) (Some 42) g = (Inr s, g')"
    using assms(2) by (auto simp: show_map_def Let_def split: prod.splits sum.splits)
  from sample_rows [OF assms(1) this] have "set s \<subseteq> set ?rows" by simp
  then show ?thesis
    by (auto dest: coords_index_in_ref)
qed

lemma cancel_map_rows:
  assumes "permutes_positions np" and "cancel_map np airports t g = (Inr (s, u), g')"
  shows "\<forall>f\<in>set s. in_airport_ref airports (ORIGIN_AIRPORT f) \<and> in_airport_ref airports (DESTINATION_AIRPORT f)"
proof -
  let ?rows = "filter (\<lambda>f. isin (ORIGIN_AIRPORT f) (airport_coords_index airports) \<and>
                          isin (DESTINATION_AIRPORT f) (airport_coords_index airports))
                 (filter (\<lambda>f. CANCELLED f = 1) t)"
  have "sample np ?rows (min 300 (length (filter (\<lambda>f. CANCELLED f = 1) t))) (Some 42) g = (Inr s, g')"
    using assms(2) by (auto simp: cancel_map_def Let_def split: prod.splits sum.splits)
  from sample_rows [OF assms(1) this] have "set s \<subseteq> set ?rows" by simp
  then show ?thesis
    by (auto dest: isin_coords_in_ref)
qed

lemma sample_returns: "n \<le> length df \<Longrightarrow> \<exists>s. sample np df n (Some seed) g = (Inr s, g)"
  by (simp add: sample_seeded)

lemma show_map_returns:
  assumes "min 300 (length (select_airline a fl))
             \<le> length (filter (\<lambda>(a, b). a \<in> set (airport_coords_index airports) \<and> b \<in> set (airport_coords_index airports))
                          (endpoints (select_airline a fl)))"
  shows "\<exists>s u. show_map np airports a fl g = (Inr (s, u), g)"
proof -
  from sample_returns [OF assms, where np = np and seed = 42 and g = g] obtain s where
    s: "sample np (filter (\<lambda>(a, b). a \<in> set (airport_coords_index airports) \<and> b \<in> set (airport_coords_index airports))
                     (endpoints (select_airline a fl)))
          (min 300 (length (select_airline a fl))) (Some 42) g = (Inr s, g)"
    by blast
  show ?thesis
    unfolding show_map_def Let_def s by simp
qed

lemma cancel_map_returns:
  assumes "min 300 (length (filter (\<lambda>f. CANCELLED f = 1) fl))
             \<le> length (filter (\<lambda>f. isin (ORIGIN_AIRPORT f) (airport_coords_index airports) \<and>
                                       isin (DESTINATION_AIRPORT f) (airport_coords_index airports))
                          (filter (\<lambda>f. CANCELLED f = 1) fl))"
  shows "\<exists>s u. cancel_map np airports fl g = (Inr (s, u), g)"
proof -
  from sample_returns [OF assms, where np = np and seed = 42 and g = g] obtain s where
    s: "sample np (filter (\<lambda>f. isin (ORIGIN_AIRPORT f) (airport_coords_index airports) \<and>
                                isin (DESTINATION_AIRPORT f) (airport_coords_index airports))
                     (filter (\<lambda>f. CANCELLED f = 1) fl))
          (min 300 (length (filter (\<lambda>f. CANCELLED f = 1) fl))) (Some 42) g = (Inr s, g)"
    by blast
  show ?thesis
    unfolding cancel_map_def Let_def s by simp
qed

lemma endpoints_append: "endpoints (xs @ ys) = endpoints xs @ endpoints ys"
  by (induction xs) (auto split: option.splits)

lemma endpoints_replicate:
  "ORIGIN_AIRPORT f = Some a \<Longrightarrow> DESTINATION_AIRPORT f = Some b \<Longrightarrow>
   endpoints (replicate n f) = replicate n (a, b)"
  by (induction n) auto

lemma permutes_positions_np_rev: "permutes_positions np_rev"
  by (auto simp: permutes_positions_def np_rev_def)

lemma coords0: "set (airport_coords_index airports0) = {''JFK'', ''LAX''}"
  by (auto simp: airport_coords_index_def airport_coords_def airports0_def)

lemma big_show_map: "\<exists>s u. show_map np_rev airports0 None big_example () = (Inr (s, u), ())"
proof (rule show_map_returns)
  have "endpoints big_example = replicate 300 (''JFK'', ''LAX'') @ [(''JFK'', ''XXX'')]"
    by (simp add: big_example_def endpoints_append endpoints_replicate flight0_def)
  then show "min 300 (length (select_airline None big_example))
             \<le> length (filter (\<lambda>(a, b). a \<in> set (airport_coords_index airports0) \<and> b \<in> set (airport_coords_index airports0))
                          (endpoints (select_airline None big_example)))"
    by (simp add: select_airline_None coords0 big_example_def)
qed

lemma big_cancel_map: "\<exists>s u. cancel_map np_rev airports0 big_example () = (Inr (s, u), ())"
proof (rule cancel_map_returns)
  have a: "filter (\<lambda>f. CANCELLED f = 1) big_example = big_example"
    by (simp add: big_example_def flight0_def)
  have b: "filter (\<lambda>f. isin (ORIGIN_AIRPORT f) (airport_coords_index airports0) \<and>
                        isin (DESTINATION_AIRPORT f) (airport_coords_index airports0)) big_example
           = replicate 300 (flight0\<lparr>CANCELLED := 1\<rparr>)"
    by (simp add: big_example_def flight0_def isin_def coords0)
  show "min 300 (length (filter (\<lambda>f. CANCELLED f = 1) big_example))
             \<le> length (filter (\<lambda>f. isin (ORIGIN_AIRPORT f) (airport_coords_index airports0) \<and>
                                       isin (DESTINATION_AIRPORT f) (airport_coords_index airports0))
                          (filter (\<lambda>f. CANCELLED f = 1) big_example))"
    unfolding a b by (simp add: big_example_def)
qed


text \<open>
  Claim C6, as stated, says that a flight with an absent origin or destination code
  appears in no city aggregate. It fails for the city of the other endpoint: a flight
  from JFK to a code without an entry is counted under New York in the treemap of origin
  cities.
\<close>

theorem absent_destination_counted_in_origin_cities:
  "\<not> in_airport_ref airports0 (DESTINATION_AIRPORT (hd only_unknown_example)) \<and>
   origin_treemap None (overview_enrichment airlines0 airports0 only_unknown_example)
     = [(''New York'', 1)]"
  by code_simp

text \<open>
  Claim C6, amended. In the enriched tables of the overview page and of the
  cancelled-flights page, a flight whose origin code is absent from the airport table
  has no origin city and no route label, and one whose destination code is absent has
  no destination city and no route label. The route aggregates (top routes, top
  cancelled routes, cancellation rate by route) are what they would be without the
  flights that have an absent code; the treemap of origin cities is what it would be
  without the flights of absent origin code, and likewise for destinations. Every row
  that a map samples, on any table, has both codes in the airport table.
\<close>

theorem absent_airport_excluded:
  assumes "permutes_positions np"
    and "t = overview_enrichment airlines airports flights"
    and "cancelled_enrichment airlines airports flights = Inr tc"
  shows "(\<forall>f\<in>set t \<union> set tc.
            (\<not> in_airport_ref airports (ORIGIN_AIRPORT f) \<longrightarrow> ORIGIN_CITY f = None \<and> ROUTE f = None) \<and>
            (\<not> in_airport_ref airports (DESTINATION_AIRPORT f) \<longrightarrow> DEST_CITY f = None \<and> ROUTE f = None)) \<and>
         route_bar a t = route_bar a (filter (\<lambda>f. in_airport_ref airports (ORIGIN_AIRPORT f) \<and>
                                               in_airport_ref airports (DESTINATION_AIRPORT f)) t) \<and>
         origin_treemap a t = origin_treemap a (filter (\<lambda>f. in_airport_ref airports (ORIGIN_AIRPORT f)) t) \<and>
         dest_treemap a t = dest_treemap a (filter (\<lambda>f. in_airport_ref airports (DESTINATION_AIRPORT f)) t) \<and>
         cancel_route_bar tc = cancel_route_bar (filter (\<lambda>f. in_airport_ref airports (ORIGIN_AIRPORT f) \<and>
                                                     in_airport_ref airports (DESTINATION_AIRPORT f)) tc) \<and>
         cancel_rate_bar tc = cancel_rate_bar (filter (\<lambda>f. in_airport_ref airports (ORIGIN_AIRPORT f) \<and>
                                                   in_airport_ref airports (DESTINATION_AIRPORT f)) tc) \<and>
         (\<forall>tm g s u g'. show_map np airports a tm g = (Inr (s, u), g') \<longrightarrow>
            (\<forall>(c, d)\<in>set s. in_airport_ref airports (Some c) \<and> in_airport_ref airports (Some d))) \<and>
         (\<forall>tm g s u g'. cancel_map np airports tm g = (Inr (s, u), g') \<longrightarrow>
            (\<forall>f\<in>set s. in_airport_ref airports (ORIGIN_AIRPORT f) \<and>
                        in_airport_ref airports (DESTINATION_AIRPORT f)))"
proof -
  let ?o = "\<lambda>f. in_airport_ref airports (ORIGIN_AIRPORT f)"
  let ?d = "\<lambda>f. in_airport_ref airports (DESTINATION_AIRPORT f)"
  have rows_t: "\<And>f. f \<in> set t \<Longrightarrow>
      (\<not> ?o f \<longrightarrow> ORIGIN_CITY f = None \<and> ROUTE f = None) \<and> (\<not> ?d f \<longrightarrow> DEST_CITY f = None \<and> ROUTE f = None)"
    using overview_row_cities [of _ airlines airports flights] absent_code_no_city
    unfolding assms(2) by blast
  have rows_tc: "\<And>f. f \<in> set tc \<Longrightarrow>
      (\<not> ?o f \<longrightarrow> ORIGIN_CITY f = None \<and> ROUTE f = None) \<and> (\<not> ?d f \<longrightarrow> DEST_CITY f = None \<and> ROUTE f = None)"
    using cancelled_row_cities [OF assms(3)] absent_code_no_city by blast
  have 1: "\<forall>f\<in>set t \<union> set tc.
            (\<not> ?o f \<longrightarrow> ORIGIN_CITY f = None \<and> ROUTE f = None) \<and> (\<not> ?d f \<longrightarrow> DEST_CITY f = None \<and> ROUTE f = None)"
    using rows_t rows_tc by blast
  have r: "\<forall>f\<in>set (select_airline a t). \<not> (?o f \<and> ?d f) \<longrightarrow> ROUTE f = None"
    using rows_t set_select_airline [of a t] by blast
  have oc: "\<forall>f\<in>set (select_airline a t). \<not> ?o f \<longrightarrow> ORIGIN_CITY f = None"
    using rows_t set_select_airline [of a t] by blast
  have dc: "\<forall>f\<in>set (select_airline a t). \<not> ?d f \<longrightarrow> DEST_CITY f = None"
    using rows_t set_select_airline [of a t] by blast
  have 2: "route_bar a t = route_bar a (filter (\<lambda>f. ?o f \<and> ?d f) t)"
    by (simp only: route_bar_def Let_def select_airline_filter value_counts_filter [OF r])
  have 3: "origin_treemap a t = origin_treemap a (filter ?o t)"
    by (simp only: origin_treemap_def Let_def select_airline_filter value_counts_filter [OF oc])
  have 4: "dest_treemap a t = dest_treemap a (filter ?d t)"
    by (simp only: dest_treemap_def Let_def select_airline_filter value_counts_filter [OF dc])
  have rc: "\<forall>f\<in>set (filter (\<lambda>f. CANCELLED f = 1) tc). \<not> (?o f \<and> ?d f) \<longrightarrow> ROUTE f = None"
    using rows_tc by auto
  have sw: "filter (\<lambda>f. CANCELLED f = 1) (filter (\<lambda>f. ?o f \<and> ?d f) tc)
              = filter (\<lambda>f. ?o f \<and> ?d f) (filter (\<lambda>f. CANCELLED f = 1) tc)"
    unfolding filter_filter by (rule filter_cong) auto
  have 5: "cancel_route_bar tc = cancel_route_bar (filter (\<lambda>f. ?o f \<and> ?d f) tc)"
    by (simp only: cancel_route_bar_def Let_def sw value_counts_filter [OF rc])
  have rt: "\<forall>f\<in>set tc. \<not> (?o f \<and> ?d f) \<longrightarrow> ROUTE f = None"
    using rows_tc by blast
  have 6: "cancel_rate_bar tc = cancel_rate_bar (filter (\<lambda>f. ?o f \<and> ?d f) tc)"
    by (simp only: cancel_rate_bar_def cancel_rates_filter [OF rt])
  have 7: "\<forall>tm g s u g'. show_map np airports a tm g = (Inr (s, u), g') \<longrightarrow>
            (\<forall>(c, d)\<in>set s. in_airport_ref airports (Some c) \<and> in_airport_ref airports (Some d))"
    using show_map_rows [OF assms(1)] by blast
  have 8: "\<forall>tm g s u g'. cancel_map np airports tm g = (Inr (s, u), g') \<longrightarrow>
            (\<forall>f\<in>set s. ?o f \<and> ?d f)"
    using cancel_map_rows [OF assms(1)] by blast
  from 1 2 3 4 5 6 7 8 show ?thesis by (intro conjI)
qed

theorem absent_airport_example:
  "permutes_positions np_rev \<and>
   (case cancelled_enrichment airlines0 airports0 unknown_dest_example of
      Inl e \<Rightarrow> False
    | Inr tc \<Rightarrow>
        \<not> in_airport_ref airports0 (DESTINATION_AIRPORT (last tc)) \<and>
        DEST_CITY (last tc) = None \<and> ROUTE (last tc) = None \<and>
        cancel_route_bar tc
          = cancel_route_bar (filter (\<lambda>f. in_airport_ref airports0 (ORIGIN_AIRPORT f) \<and>
                                          in_airport_ref airports0 (DESTINATION_AIRPORT f)) tc) \<and>
        cancel_rate_bar tc
          = cancel_rate_bar (filter (\<lambda>f. in_airport_ref airports0 (ORIGIN_AIRPORT f) \<and>
                                         in_airport_ref airports0 (DESTINATION_AIRPORT f)) tc)) \<and>
   \<not> in_airport_ref airports0
        (DESTINATION_AIRPORT (last (overview_enrichment airlines0 airports0 unknown_dest_example))) \<and>
   DEST_CITY (last (overview_enrichment airlines0 airports0 unknown_dest_example)) = None \<and>
   ROUTE (last (overview_enrichment airlines0 airports0 unknown_dest_example)) = None \<and>
   route_bar None (overview_enrichment airlines0 airports0 unknown_dest_example)
     = route_bar None (filter (\<lambda>f. in_airport_ref airports0 (ORIGIN_AIRPORT f) \<and>
                                    in_airport_ref airports0 (DESTINATION_AIRPORT f))
                         (overview_enrichment airlines0 airports0 unknown_dest_example)) \<and>
   dest_treemap None (overview_enrichment airlines0 airports0 unknown_dest_example)
     = dest_treemap None (filter (\<lambda>f. in_airport_ref airports0 (DESTINATION_AIRPORT f))
                            (overview_enrichment airlines0 airports0 unknown_dest_example)) \<and>
   (\<exists>s u. show_map np_rev airports0 None big_example () = (Inr (s, u), ()) \<and>
          (''JFK'', ''XXX'') \<notin> set s) \<and>
   (\<exists>s u. cancel_map np_rev airports0 big_example () = (Inr (s, u), ()) \<and>
          last big_example \<notin> set s)"
proof -
  let ?t = "overview_enrichment airlines0 airports0 unknown_dest_example"
  have a: "(case cancelled_enrichment airlines0 airports0 unknown_dest_example of
              Inl e \<Rightarrow> False
            | Inr tc \<Rightarrow> tc \<noteq> [] \<and> \<not> in_airport_ref airports0 (DESTINATION_AIRPORT (last tc)))"
    by code_simp
  have b: "?t \<noteq> [] \<and> \<not> in_airport_ref airports0 (DESTINATION_AIRPORT (last ?t))"
    by code_simp
  have x: "\<not> in_airport_ref airports0 (Some ''XXX'')"
    by code_simp
  have lb: "DESTINATION_AIRPORT (last big_example) = Some ''XXX''"
    by (simp add: big_example_def)
  show ?thesis
  proof (cases "cancelled_enrichment airlines0 airports0 unknown_dest_example")
    case (Inl e)
    with a show ?thesis by simp
  next
    case (Inr tc)
    with a have tc: "tc \<noteq> []" "\<not> in_airport_ref airports0 (DESTINATION_AIRPORT (last tc))"
      by simp_all
    note C = absent_airport_excluded [OF permutes_positions_np_rev refl Inr, of None]
    have m: "last tc \<in> set ?t \<union> set tc" "last ?t \<in> set ?t \<union> set tc"
      using tc(1) b by simp_all
    have r1: "DEST_CITY (last tc) = None \<and> ROUTE (last tc) = None"
      using C [THEN conjunct1] m(1) tc(2) by blast
    have r2: "DEST_CITY (last ?t) = None \<and> ROUTE (last ?t) = None"
      using C [THEN conjunct1] m(2) b by blast
    obtain s u where s: "show_map np_rev airports0 None big_example () = (Inr (s, u), ())"
      using big_show_map by blast
    have "\<forall>(c, d)\<in>set s. in_airport_ref airports0 (Some c) \<and> in_airport_ref airports0 (Some d)"
      using C [THEN conjunct2, THEN conjunct2, THEN conjunct2, THEN conjunct2, THEN conjunct2,
               THEN conjunct2, THEN conjunct1] s by blast
    then have "(''JFK'', ''XXX'') \<notin> set s"
      using x by blast
    with s have r3: "\<exists>s u. show_map np_rev airports0 None big_example () = (Inr (s, u), ()) \<and>
          (''JFK'', ''XXX'') \<notin> set s"
      by blast
    obtain s' u' where s': "cancel_map np_rev airports0 big_example () = (Inr (s', u'), ())"
      using big_cancel_map by blast
    have "\<forall>f\<in>set s'. in_airport_ref airports0 (ORIGIN_AIRPORT f) \<and>
                       in_airport_ref airports0 (DESTINATION_AIRPORT f)"
      using C [THEN conjunct2, THEN conjunct2, THEN conjunct2, THEN conjunct2, THEN conjunct2,
               THEN conjunct2, THEN conjunct2] s' by blast
    then have "last big_example \<notin> set s'"
      using x lb by auto
    with s' have r4: "\<exists>s u. cancel_map np_rev airports0 big_example () = (Inr (s, u), ()) \<and>
          last big_example \<notin> set s"
      by blast
    from C have r5: "route_bar None ?t
          = route_bar None (filter (\<lambda>f. in_airport_ref airports0 (ORIGIN_AIRPORT f) \<and>
                                    in_airport_ref airports0 (DESTINATION_AIRPORT f)) ?t)"
      and r6: "dest_treemap None ?t
          = dest_treemap None (filter (\<lambda>f. in_airport_ref airports0 (DESTINATION_AIRPORT f)) ?t)"
      and r7: "cancel_route_bar tc
          = cancel_route_bar (filter (\<lambda>f. in_airport_ref airports0 (ORIGIN_AIRPORT f) \<and>
                                          in_airport_ref airports0 (DESTINATION_AIRPORT f)) tc)"
      and r8: "cancel_rate_bar tc
          = cancel_rate_bar (filter (\<lambda>f. in_airport_ref airports0 (ORIGIN_AIRPORT f) \<and>
                                         in_airport_ref airports0 (DESTINATION_AIRPORT f)) tc)"
      by blast+
    show ?thesis
      unfolding Inr sum.case
      using permutes_positions_np_rev tc(2) b r1 r2 r3 r4 r5 r6 r7 r8 by (intro conjI) blast+
  qed
qed


section \<open>When the enrichment of the delay and cancelled-flights pages returns\<close>

lemma str_nat_digits: "str_nat n \<noteq> [] \<and> list_all is_digit (str_nat n)"
proof (induction n rule: str_nat.induct)
  case (1 n)
  show ?case
  proof (cases "n < 10")
    case True
    then show ?thesis by (simp add: str_nat_1 is_digit_digit_char)
  next
    case False
    have "str_nat n = str_nat (n div 10) @ [digit_char (n mod 10)]"
      using False by (subst str_nat.simps) simp
    then show ?thesis
      using 1 [OF False] by (simp add: is_digit_digit_char)
  qed
qed

lemma is_digit_not_sign: "is_digit c \<Longrightarrow> c \<noteq> CHR ''-'' \<and> c \<noteq> CHR ''+''"
  by (auto simp: is_digit_def)

lemma is_digit_zero: "is_digit CHR ''0''"
  by (simp add: is_digit_def)

lemma int_of_str_digits:
  assumes "s \<noteq> []" and "list_all is_digit s"
  shows "\<exists>h. int_of_str s = Inr h"
proof (cases s)
  case Nil
  with assms show ?thesis by simp
next
  case (Cons c rest)
  then have "is_digit c" using assms(2) by simp
  from is_digit_not_sign [OF this] show ?thesis
    using assms(2) Cons by (simp add: int_of_str_def)
qed

lemma int_of_str_minus:
  assumes "ds \<noteq> []" and "list_all is_digit ds"
  shows "\<exists>h. int_of_str (CHR ''-'' # ds) = Inr h"
  using assms by (simp add: int_of_str_def)

lemma list_all_take: "list_all P xs \<Longrightarrow> list_all P (take n xs)"
  using set_take_subset [of n xs] by (auto simp: list_all_iff)

lemma zfill_digits:
  assumes "s \<noteq> []" and "list_all is_digit s"
  shows "zfill 4 s \<noteq> [] \<and> list_all is_digit (zfill 4 s)"
proof (cases s)
  case Nil
  with assms show ?thesis by simp
next
  case (Cons c rest)
  then have "is_digit c" using assms(2) by simp
  from is_digit_not_sign [OF this] show ?thesis
    using assms Cons by (simp add: zfill_def is_digit_zero list_all_iff)
qed

lemma zfill_minus:
  assumes "ds \<noteq> []" and "list_all is_digit ds"
  shows "\<exists>ds'. zfill 4 (CHR ''-'' # ds) = CHR ''-'' # ds' \<and> ds' \<noteq> [] \<and> list_all is_digit ds'"
  using assms by (simp add: zfill_def is_digit_zero list_all_iff)

text \<open>The scheduled hour is computed for every integer: only a missing value raises.\<close>

lemma sched_hour_returns: "\<exists>h. sched_hour (Some i) = Inr h"
proof (cases "i < 0")
  case True
  from zfill_minus [of "str_nat (nat (- i))"] str_nat_digits [of "nat (- i)"]
  obtain ds where ds: "zfill 4 (CHR ''-'' # str_nat (nat (- i))) = CHR ''-'' # ds"
      "ds \<noteq> []" "list_all is_digit ds"
    by blast
  have "take 2 (CHR ''-'' # ds) = CHR ''-'' # take 1 ds"
    by (simp add: numeral_2_eq_2)
  moreover have "take 1 ds \<noteq> []" using ds(2) by (cases ds) simp_all
  moreover have "list_all is_digit (take 1 ds)" using ds(3) by (rule list_all_take)
  ultimately have "\<exists>h. int_of_str (take 2 (CHR ''-'' # ds)) = Inr h"
    using int_of_str_minus by simp
  then show ?thesis
    using True by (simp add: sched_hour_def str_int_def ds(1))
next
  case False
  from zfill_digits [of "str_nat (nat i)"] str_nat_digits [of "nat i"]
  have z: "zfill 4 (str_nat (nat i)) \<noteq> []" "list_all is_digit (zfill 4 (str_nat (nat i)))"
    by simp_all
  have "take 2 (zfill 4 (str_nat (nat i))) \<noteq> []" using z(1) by simp
  moreover have "list_all is_digit (take 2 (zfill 4 (str_nat (nat i))))"
    using z(2) by (rule list_all_take)
  ultimately have "\<exists>h. int_of_str (take 2 (zfill 4 (str_nat (nat i)))) = Inr h"
    by (rule int_of_str_digits)
  then show ?thesis
    using False by (simp add: sched_hour_def str_int_def)
qed

lemma delay_enrichment_returns:
  assumes "\<forall>f\<in>set flights. SCHEDULED_DEPARTURE f \<noteq> None"
  shows "\<exists>t. delay_enrichment airlines flights = Inr t"
  unfolding delay_enrichment_def
proof (rule apply_rows_total, rule ballI)
  fix f assume "f \<in> set flights"
  with assms obtain i where "SCHEDULED_DEPARTURE f = Some i" by auto
  then show "\<exists>y. delay_enrich_row (airline_map airlines) f = Inr y"
    using sched_hour_returns [of i] by (auto simp: delay_enrich_row_def Let_def)
qed

lemma cancelled_enrichment_returns:
  assumes "\<forall>f\<in>set flights. SCHEDULED_DEPARTURE f \<noteq> None"
  shows "\<exists>t. cancelled_enrichment airlines airports flights = Inr t"
  unfolding cancelled_enrichment_def
proof (rule apply_rows_total, rule ballI)
  fix f assume "f \<in> set flights"
  with assms obtain i where "SCHEDULED_DEPARTURE f = Some i" by auto
  then show "\<exists>y. cancelled_enrich_row (airline_map airlines) (city_map airports) f = Inr y"
    using sched_hour_returns [of i] by (auto simp: cancelled_enrich_row_def Let_def)
qed


end
